theory Spec2Isabelle
  imports Complex_Main "HOL-Library.AList"
begin

section \<open>Exceptions\<close>

text \<open>
  The exceptions that the modelled part of \<^verbatim>\<open>main.py\<close> can raise. A function that may
  raise returns \<open>py_error + 'a\<close>, with \<open>Inl\<close> for the exception. \<open>RuntimeError\<close> carries the
  three values interpolated into the message of line 118: the line, the discriminator and
  the second token.
\<close>

datatype py_error =
    ValueError
  | TypeError
  | OverflowError
  | IndexError
  | AttributeError
  | RuntimeError string char string

section \<open>Strings\<close>

text \<open>
  A Python \<^verbatim>\<open>str\<close> is modelled as a \<open>string\<close> whose characters are the code points
  below 256. \<open>char_le\<close> is the comparison of two one-character strings, by code point.
\<close>

definition char_le :: "char \<Rightarrow> char \<Rightarrow> bool" where
  "char_le a b = ((of_char a :: nat) \<le> of_char b)"

text \<open>
  The characters that \<^verbatim>\<open>str.split()\<close> and \<^verbatim>\<open>str.strip()\<close> treat as whitespace, among the
  code points below 256: U+0009 to U+000D, U+001C to U+0020, U+0085, U+00A0.
\<close>

definition isspace :: "char \<Rightarrow> bool" where
  "isspace c =
     (let n = (of_char c :: nat)
      in (9 \<le> n \<and> n \<le> 13) \<or> (28 \<le> n \<and> n \<le> 32) \<or> n = 133 \<or> n = 160)"

text \<open>
  The bytes that \<^verbatim>\<open>bytes.strip()\<close> removes: tab, line feed, vertical tab, form feed,
  carriage return and space. \<^verbatim>\<open>int()\<close> skips these around a number, and U+0085 and U+00A0
  as well, but not U+001C to U+001F.
\<close>

definition isspace_ascii :: "char \<Rightarrow> bool" where
  "isspace_ascii c = (let n = (of_char c :: nat) in (9 \<le> n \<and> n \<le> 13) \<or> n = 32)"

definition isspace_int :: "char \<Rightarrow> bool" where
  "isspace_int c = (isspace_ascii c \<or> (of_char c :: nat) = 133 \<or> (of_char c :: nat) = 160)"

text \<open>\<^verbatim>\<open>s.split()\<close>: the maximal runs of non-whitespace characters, in order.\<close>

fun split_aux :: "string \<Rightarrow> string \<Rightarrow> string list" where
  "split_aux cur [] = (if cur = [] then [] else [rev cur])"
| "split_aux cur (c # cs) =
     (if isspace c
      then (if cur = [] then split_aux [] cs else rev cur # split_aux [] cs)
      else split_aux (c # cur) cs)"

definition str_split :: "string \<Rightarrow> string list" where
  "str_split s = split_aux [] s"

text \<open>\<^verbatim>\<open>s.split(sep)\<close> for a one-character \<open>sep\<close>: empty pieces are kept.\<close>

fun str_split_sep :: "char \<Rightarrow> string \<Rightarrow> string list" where
  "str_split_sep sep [] = [[]]"
| "str_split_sep sep (c # cs) =
     (if c = sep then [] # str_split_sep sep cs
      else (case str_split_sep sep cs of
              [] \<Rightarrow> [[c]]
            | piece # pieces \<Rightarrow> (c # piece) # pieces))"

text \<open>
  \<^verbatim>\<open>s.rstrip(chars)\<close> for a one-character \<open>chars\<close>; \<^verbatim>\<open>s.strip()\<close> on a \<^verbatim>\<open>str\<close> and on
  \<^verbatim>\<open>bytes\<close>.
\<close>

definition str_rstrip :: "char \<Rightarrow> string \<Rightarrow> string" where
  "str_rstrip ch s = rev (dropWhile (\<lambda>c. c = ch) (rev s))"

definition str_strip :: "string \<Rightarrow> string" where
  "str_strip s = rev (dropWhile isspace (rev (dropWhile isspace s)))"

definition bytes_strip :: "string \<Rightarrow> string" where
  "bytes_strip b = rev (dropWhile isspace_ascii (rev (dropWhile isspace_ascii b)))"

text \<open>\<^verbatim>\<open>" ".join(parts)\<close>.\<close>

fun str_join :: "string list \<Rightarrow> string" where
  "str_join [] = []"
| "str_join [p] = p"
| "str_join (p # q # ps) = p @ CHR '' '' # str_join (q # ps)"

text \<open>\<^verbatim>\<open>xs[i]\<close> for a constant \<open>i \<ge> 0\<close>: \<^verbatim>\<open>IndexError\<close> out of range.\<close>

definition py_index :: "'a list \<Rightarrow> nat \<Rightarrow> py_error + 'a" where
  "py_index xs i = (if i < length xs then Inr (xs ! i) else Inl IndexError)"

text \<open>Sequencing of calls that may raise: the first exception ends the computation.\<close>

definition py_bind :: "py_error + 'a \<Rightarrow> ('a \<Rightarrow> py_error + 'b) \<Rightarrow> py_error + 'b" where
  "py_bind m f = (case m of Inl e \<Rightarrow> Inl e | Inr v \<Rightarrow> f v)"

fun py_sequence :: "(py_error + 'a) list \<Rightarrow> py_error + 'a list" where
  "py_sequence [] = Inr []"
| "py_sequence (m # ms) =
     (case m of
        Inl e \<Rightarrow> Inl e
      | Inr v \<Rightarrow> (case py_sequence ms of Inl e \<Rightarrow> Inl e | Inr vs \<Rightarrow> Inr (v # vs)))"

section \<open>int() and datetime.time()\<close>

definition isdigit :: "char \<Rightarrow> bool" where
  "isdigit c = (char_le CHR ''0'' c \<and> char_le c CHR ''9'')"

definition digit_val :: "char \<Rightarrow> int" where
  "digit_val c = int (of_char c) - 48"

text \<open>
  The digits of an integer literal as \<^verbatim>\<open>int(s)\<close> reads it in base 10: one or more decimal
  digits, with single underscores allowed between digits.
\<close>

fun parse_digits :: "string \<Rightarrow> int list option" where
  "parse_digits [] = None"
| "parse_digits [c] = (if isdigit c then Some [digit_val c] else None)"
| "parse_digits (c # d # cs) =
     (if isdigit c
      then (if d = CHR ''_''
            then map_option ((#) (digit_val c)) (parse_digits cs)
            else map_option ((#) (digit_val c)) (parse_digits (d # cs)))
      else None)"

text \<open>
  The interpreter's default limit on the number of digits of a decimal string that
  \<^verbatim>\<open>int()\<close> converts (\<^verbatim>\<open>sys.int_info.default_max_str_digits\<close>).
\<close>

definition int_max_str_digits :: nat where
  "int_max_str_digits = 4300"

text \<open>
  \<^verbatim>\<open>int(s)\<close> on a string: the whitespace of \<open>isspace_int\<close> around the number is dropped,
  one sign is allowed, the rest must be a literal as above; anything else raises
  \<^verbatim>\<open>ValueError\<close>.
\<close>

definition py_int :: "string \<Rightarrow> py_error + int" where
  "py_int s =
     (let t = rev (dropWhile isspace_int (rev (dropWhile isspace_int s)));
          negative = (case t of [] \<Rightarrow> False | c # _ \<Rightarrow> c = CHR ''-'');
          body = (case t of [] \<Rightarrow> []
                  | c # cs \<Rightarrow> if c = CHR ''-'' \<or> c = CHR ''+'' then cs else t)
      in case parse_digits body of
           None \<Rightarrow> Inl ValueError
         | Some ds \<Rightarrow>
             if int_max_str_digits < length ds then Inl ValueError
             else (let magnitude = foldl (\<lambda>acc d. 10 * acc + d) 0 ds
                   in Inr (if negative then - magnitude else magnitude)))"

record py_time =
  hour :: int
  minute :: int
  second :: int
  microsecond :: int

text \<open>
  \<^verbatim>\<open>datetime.time(*args)\<close> with integer arguments, as CPython's \<^verbatim>\<open>_datetime\<close> does it. The
  positional parameters are hour, minute, second, microsecond and tzinfo, each optional,
  and there is one keyword-only parameter. More than six arguments is a \<^verbatim>\<open>TypeError\<close>
  at once. Otherwise the arguments are converted in order, and each of the first four must
  fit a C \<^verbatim>\<open>int\<close> (\<^verbatim>\<open>OverflowError\<close>); only then is a sixth positional argument refused
  (\<^verbatim>\<open>TypeError\<close>). Then the ranges are checked in order (\<^verbatim>\<open>ValueError\<close>), and a fifth
  argument, here an integer, is not a \<^verbatim>\<open>tzinfo\<close> (\<^verbatim>\<open>TypeError\<close>).
\<close>

definition c_int_ok :: "int \<Rightarrow> bool" where
  "c_int_ok n = (- (2 ^ 31) \<le> n \<and> n < 2 ^ 31)"

definition arg_or_zero :: "int list \<Rightarrow> nat \<Rightarrow> int" where
  "arg_or_zero args i = (if i < length args then args ! i else 0)"

definition datetime_time :: "int list \<Rightarrow> py_error + py_time" where
  "datetime_time args =
     (if 6 < length args then Inl TypeError
      else if \<not> list_all c_int_ok (take 4 args) then Inl OverflowError
      else if length args = 6 then Inl TypeError
      else (let h = arg_or_zero args 0; m = arg_or_zero args 1;
                s = arg_or_zero args 2; us = arg_or_zero args 3
            in if h < 0 \<or> 23 < h then Inl ValueError
               else if m < 0 \<or> 59 < m then Inl ValueError
               else if s < 0 \<or> 59 < s then Inl ValueError
               else if us < 0 \<or> 999999 < us then Inl ValueError
               else if length args = 5 then Inl TypeError
               else Inr \<lparr>hour = h, minute = m, second = s, microsecond = us\<rparr>))"

section \<open>ChatMessage.parse (lines 67-118)\<close>

datatype message_type = REGULAR | ACTION | MODE_CHANGE

text \<open>The field \<^verbatim>\<open>text\<close> is named \<open>msg_text\<close>: \<open>text\<close> is a command of the theory language.\<close>

record chat_message =
  time :: py_time
  username :: string
  msg_text :: string
  line_type :: message_type

text \<open>
  Line 87, \<^verbatim>\<open>datetime.time(*map(int, contents[0].split(":")))\<close>: the unpacking runs
  \<^verbatim>\<open>int\<close> over every component before \<^verbatim>\<open>datetime.time\<close> is called.
\<close>

definition parse_time :: "string \<Rightarrow> py_error + py_time" where
  "parse_time token =
     py_bind (py_sequence (map py_int (str_split_sep CHR '':'' token))) datetime_time"

text \<open>
  A line as \<^verbatim>\<open>bulk_lines\<close> reads it (lines 245-251): a \<^verbatim>\<open>str\<close> from a file opened with
  \<^verbatim>\<open>open(filepath, "r")\<close>, or \<^verbatim>\<open>bytes\<close> from a \<^verbatim>\<open>.gz\<close> file, which is opened with
  \<^verbatim>\<open>gzip.open(filepath, "rb")\<close>.
\<close>

datatype py_line = Text string | Bytes string

text \<open>
  \<^verbatim>\<open>ChatMessage.parse(line)\<close>: \<open>Inr None\<close> is \<^verbatim>\<open>return None\<close>, \<open>Inr (Some m)\<close> a message,
  \<open>Inl e\<close> an exception that leaves the method. On \<^verbatim>\<open>bytes\<close>, \<^verbatim>\<open>line[0]\<close> is an integer,
  and \<^verbatim>\<open>'0' <= line[0]\<close> in line 83, which is evaluated when the line has 7 bytes or more,
  raises \<^verbatim>\<open>TypeError\<close>.
\<close>

definition parse :: "py_line \<Rightarrow> py_error + chat_message option" where
  "parse l =
    (case l of
      Bytes line \<Rightarrow> (if length line < 7 then Inr None else Inl TypeError)
    | Text line \<Rightarrow>
     (if length line < 7 \<or> \<not> (char_le CHR ''0'' (line ! 0) \<and> char_le (line ! 0) CHR ''9'')
      then Inr None
      else
        (let contents = str_split line in
         py_bind (py_index contents 0) (\<lambda>token0.
         py_bind (parse_time token0) (\<lambda>message_time.
         py_bind (py_index contents 1) (\<lambda>token1.
         py_bind (py_index token1 0) (\<lambda>d.
           if d = CHR ''*'' then
             py_bind (py_index contents 2) (\<lambda>token2.
               Inr (Some \<lparr>time = message_time, username = token2,
                          msg_text = str_join (drop 3 contents), line_type = ACTION\<rparr>))
           else if d = CHR ''<'' then
             py_bind (py_index contents 2) (\<lambda>token2.
               Inr (Some \<lparr>time = message_time, username = str_rstrip CHR ''>'' token2,
                          msg_text = str_join (drop 3 contents), line_type = REGULAR\<rparr>))
           else if d = CHR ''-'' then
             py_bind (py_index contents 4) (\<lambda>token4.
               Inr (Some \<lparr>time = message_time, username = str_rstrip CHR '']'' token4,
                          msg_text = [], line_type = MODE_CHANGE\<rparr>))
           else Inl (RuntimeError line d token1))))))))"

section \<open>URLS_PATTERN and re.findall (lines 22, 120-121)\<close>

text \<open>
  The fragment of Python's regular expressions that \<^verbatim>\<open>URLS_PATTERN\<close> is written in. An
  item of a bracket expression is one character or a range \<^verbatim>\<open>a-b\<close> of code points.
\<close>

datatype class_item = Single char | Range char char

fun in_item :: "class_item \<Rightarrow> char \<Rightarrow> bool" where
  "in_item (Single a) c = (c = a)"
| "in_item (Range lo hi) c = (char_le lo c \<and> char_le c hi)"

definition in_class :: "class_item list \<Rightarrow> char \<Rightarrow> bool" where
  "in_class items c = list_ex (\<lambda>i. in_item i c) items"

datatype regex =
    Str string
  | OneOf "class_item list"
  | Cat regex regex
  | Alt regex regex
  | Opt regex
  | Plus regex

text \<open>
  A backtracking matcher: \<open>rmatch r s\<close> lists what is left of \<open>s\<close> after each way of
  matching \<open>r\<close> at the start of \<open>s\<close>, in the order in which \<^verbatim>\<open>re\<close> tries them: the left
  alternative before the right one, and for the greedy \<^verbatim>\<open>?\<close> and \<^verbatim>\<open>+\<close> one more
  repetition before stopping. The head of the list is the match that \<^verbatim>\<open>re\<close> reports.
  A repetition of \<^verbatim>\<open>+\<close> continues only after a non-empty match of its body, which every
  match of the body of \<^verbatim>\<open>URLS_PATTERN\<close> is.
\<close>

function rmatch :: "regex \<Rightarrow> string \<Rightarrow> string list" where
  "rmatch (Str w) s = (if take (length w) s = w then [drop (length w) s] else [])"
| "rmatch (OneOf items) s =
     (case s of [] \<Rightarrow> [] | c # cs \<Rightarrow> if in_class items c then [cs] else [])"
| "rmatch (Cat r1 r2) s = concat (map (rmatch r2) (rmatch r1 s))"
| "rmatch (Alt r1 r2) s = rmatch r1 s @ rmatch r2 s"
| "rmatch (Opt r) s = rmatch r s @ [s]"
| "rmatch (Plus r) s =
     concat (map (\<lambda>t. (if length t < length s then rmatch (Plus r) t else []) @ [t])
                 (rmatch r s))"
  by pat_completeness auto
termination
  by (relation "measure size <*lex*> measure length") auto

text \<open>
  Line 22. \<open>url_punct\<close> is the bracket expression \<^verbatim>\<open>[$-_@.&+]\<close>, in which \<^verbatim>\<open>$-_\<close> is a
  range; \<open>url_char\<close> is the alternation that \<^verbatim>\<open>+\<close> repeats.
\<close>

definition url_punct :: "class_item list" where
  "url_punct = [Range CHR ''$'' CHR ''_'', Single CHR ''@'', Single CHR ''.'',
                Single CHR ''&'', Single CHR ''+'']"

definition hex_digit :: "class_item list" where
  "hex_digit = [Range CHR ''0'' CHR ''9'', Range CHR ''a'' CHR ''f'', Range CHR ''A'' CHR ''F'']"

definition url_char :: regex where
  "url_char =
     Alt (OneOf [Range CHR ''a'' CHR ''z'', Range CHR ''A'' CHR ''Z''])
    (Alt (OneOf [Range CHR ''0'' CHR ''9''])
    (Alt (OneOf url_punct)
    (Alt (OneOf [Single CHR ''!'', Single CHR ''*'', Single CHR ''('', Single CHR '')'',
                 Single CHR '',''])
         (Cat (Str ''%'') (Cat (OneOf hex_digit) (OneOf hex_digit))))))"

definition URLS_PATTERN :: regex where
  "URLS_PATTERN =
     Cat (Str ''http'') (Cat (Opt (OneOf [Single CHR ''s''])) (Cat (Str ''://'') (Plus url_char)))"

text \<open>The characters that \<open>url_char\<close> matches one at a time.\<close>

definition url_ok :: "char \<Rightarrow> bool" where
  "url_ok c = (rmatch url_char [c] \<noteq> [])"

text \<open>
  \<^verbatim>\<open>pattern.findall(s)\<close> for a pattern with one group around the whole of it, which does
  not match the empty string: the leftmost match, then the search goes on where the match
  ended. The second argument counts the characters of the last match still to be passed.
\<close>

fun findall_skip :: "regex \<Rightarrow> nat \<Rightarrow> string \<Rightarrow> string list" where
  "findall_skip r n [] = []"
| "findall_skip r (Suc n) (c # cs) = findall_skip r n cs"
| "findall_skip r 0 (c # cs) =
     (case rmatch r (c # cs) of
        [] \<Rightarrow> findall_skip r 0 cs
      | t # _ \<Rightarrow> (let matched = take (length (c # cs) - length t) (c # cs)
                 in matched # findall_skip r (length matched - 1) cs))"

definition findall :: "regex \<Rightarrow> string \<Rightarrow> string list" where
  "findall r s = findall_skip r 0 s"

section \<open>ReservoirSampler (lines 177-193)\<close>

text \<open>
  \<^verbatim>\<open>_storage\<close> is a dict, \<^verbatim>\<open>_counter\<close> a \<^verbatim>\<open>collections.Counter\<close>, which reads 0 at a
  key it does not hold. Neither is ever iterated, so a map and a total function model them.
\<close>

record ('k, 'v) sampler =
  storage :: "'k \<rightharpoonup> 'v"
  counter :: "'k \<Rightarrow> int"

definition sampler_init :: "('k, 'v) sampler" where
  "sampler_init = \<lparr>storage = Map.empty, counter = (\<lambda>_. 0)\<rparr>"

text \<open>
  \<^verbatim>\<open>consider(k, v)\<close>, named \<open>consider_kv\<close> since \<open>consider\<close> is a proof command. The
  argument \<open>r\<close> is the value that \<^verbatim>\<open>random.randint(1, curr_idx)\<close> returns when the call
  is made (it is made only in the \<^verbatim>\<open>else\<close> branch); a theorem for every \<open>r\<close> holds for
  every outcome of the draw.
\<close>

definition consider_kv :: "('k, 'v) sampler \<Rightarrow> 'k \<Rightarrow> 'v \<Rightarrow> int \<Rightarrow> ('k, 'v) sampler" where
  "consider_kv smp k v r =
     (let smp1 = smp\<lparr>counter := (counter smp)(k := counter smp k + 1)\<rparr>
      in if storage smp1 k = None
         then smp1\<lparr>storage := (storage smp1)(k \<mapsto> v)\<rparr>
         else (let curr_idx = counter smp1 k;
                   chosen_element_idx = r
               in if chosen_element_idx = 1
                  then smp1\<lparr>storage := (storage smp1)(k \<mapsto> v)\<rparr>
                  else smp1))"

text \<open>\<^verbatim>\<open>get(k)\<close> is \<^verbatim>\<open>dict.get\<close>: \<open>None\<close> at a missing key.\<close>

definition get :: "('k, 'v) sampler \<Rightarrow> 'k \<Rightarrow> 'v option" where
  "get smp k = storage smp k"

text \<open>A sequence of \<^verbatim>\<open>consider\<close> calls, each with its key, its value and its draw.\<close>

fun consider_all :: "('k, 'v) sampler \<Rightarrow> ('k \<times> 'v \<times> int) list \<Rightarrow> ('k, 'v) sampler" where
  "consider_all smp [] = smp"
| "consider_all smp ((k, v, r) # ops) = consider_all (consider_kv smp k v r) ops"

text \<open>The values passed under key \<open>k\<close> in a sequence of calls, in call order.\<close>

definition values_of :: "'k \<Rightarrow> ('k \<times> 'v \<times> int) list \<Rightarrow> 'v list" where
  "values_of k ops = map (\<lambda>(_, v, _). v) (filter (\<lambda>(k', _, _). k' = k) ops)"

section \<open>collections.Counter\<close>

text \<open>
  A \<^verbatim>\<open>Counter\<close> is a dict, which keeps its keys in insertion order; \<^verbatim>\<open>most_common\<close>
  depends on that order, so a counter is an association list in insertion order.
  \<^verbatim>\<open>c[k]\<close> reads 0 at a missing key without inserting it; \<^verbatim>\<open>c[k] += 1\<close> reads, then
  stores, which appends a new key and keeps the place of an old one.
\<close>

type_synonym 'k py_counter = "('k \<times> int) list"

definition counter_get :: "'k py_counter \<Rightarrow> 'k \<Rightarrow> int" where
  "counter_get c k = (case map_of c k of None \<Rightarrow> 0 | Some n \<Rightarrow> n)"

definition counter_incr :: "'k py_counter \<Rightarrow> 'k \<Rightarrow> 'k py_counter" where
  "counter_incr c k = AList.update k (counter_get c k + 1) c"

text \<open>
  \<^verbatim>\<open>most_common()\<close> is \<^verbatim>\<open>sorted(items, key=count, reverse=True)\<close>, a stable sort, and
  \<^verbatim>\<open>most_common(n)\<close> its first \<open>n\<close> items; \<^verbatim>\<open>total()\<close> sums the counts.
\<close>

definition most_common :: "'k py_counter \<Rightarrow> ('k \<times> int) list" where
  "most_common c = sort_key (\<lambda>(k, n). - n) c"

definition most_common_n :: "nat \<Rightarrow> 'k py_counter \<Rightarrow> ('k \<times> int) list" where
  "most_common_n n c = take n (most_common c)"

definition counter_total :: "'k py_counter \<Rightarrow> int" where
  "counter_total c = sum_list (map snd c)"

section \<open>Main: the state and one_line (lines 196-285)\<close>

text \<open>What \<^verbatim>\<open>debug\<close> prints to the standard error stream, one entry for each call.\<close>

datatype log_entry =
    Skipped_line py_line
  | Fetching_profile string
  | Rendering_template

text \<open>
  The attributes of \<^verbatim>\<open>Main\<close> that \<^verbatim>\<open>one_line\<close> and \<^verbatim>\<open>save_page\<close> read or write
  (\<^verbatim>\<open>_cache_user_messages\<close> without its underscore), and the standard error stream.
  \<^verbatim>\<open>last_url_usage\<close> is a \<^verbatim>\<open>defaultdict(str)\<close> that is never iterated.
\<close>

record main_state =
  user_messages :: "string py_counter"
  user_question :: "string py_counter"
  user_exclamation :: "string py_counter"
  user_actions :: "string py_counter"
  user_givemodes :: "string py_counter"
  cache_user_messages :: "(string, string) sampler"
  activity_graph :: "int list"
  url_count :: "string py_counter"
  last_url_usage :: "string \<rightharpoonup> string"
  stderr :: "log_entry list"

definition main_init :: main_state where
  "main_init =
     \<lparr>user_messages = [], user_question = [], user_exclamation = [], user_actions = [],
      user_givemodes = [], cache_user_messages = sampler_init,
      activity_graph = replicate 24 0, url_count = [], last_url_usage = Map.empty,
      stderr = []\<rparr>"

definition parse_urls :: "chat_message \<Rightarrow> string list" where
  "parse_urls message = findall URLS_PATTERN (msg_text message)"

text \<open>
  \<^verbatim>\<open>xs[i] += 1\<close> on a list, for an integer \<open>i\<close>: a negative index counts from the end, an
  index out of range raises \<^verbatim>\<open>IndexError\<close>.
\<close>

definition list_incr :: "int list \<Rightarrow> int \<Rightarrow> py_error + int list" where
  "list_incr xs i =
     (let n = int (length xs); j = (if i < 0 then n + i else i)
      in if 0 \<le> j \<and> j < n then Inr (xs[nat j := xs ! nat j + 1]) else Inl IndexError)"

text \<open>Lines 277-279, the loop over the URLs of one message.\<close>

fun count_urls :: "main_state \<Rightarrow> string \<Rightarrow> string list \<Rightarrow> main_state" where
  "count_urls self u [] = self"
| "count_urls self u (url # urls) =
     count_urls (self\<lparr>url_count := counter_incr (url_count self) url,
                      last_url_usage := (last_url_usage self)(url \<mapsto> u)\<rparr>) u urls"

text \<open>
  Lines 263-285, what \<^verbatim>\<open>one_line\<close> does with a parsed message. \<open>r\<close> is the outcome of the
  draw, should the sampler make one.
\<close>

definition record_message :: "main_state \<Rightarrow> chat_message \<Rightarrow> int \<Rightarrow> py_error + main_state" where
  "record_message self message r =
     (let u = username message in
      case line_type message of
        MODE_CHANGE \<Rightarrow> Inr (self\<lparr>user_givemodes := counter_incr (user_givemodes self) u\<rparr>)
      | _ \<Rightarrow>
        py_bind (list_incr (activity_graph self) (hour (time message))) (\<lambda>graph.
          let s1 = self\<lparr>activity_graph := graph\<rparr>;
              s2 = s1\<lparr>user_messages := counter_incr (user_messages s1) u\<rparr>;
              s3 = (if line_type message = ACTION
                    then s2\<lparr>user_actions := counter_incr (user_actions s2) u\<rparr> else s2);
              s4 = s3\<lparr>cache_user_messages :=
                         consider_kv (cache_user_messages s3) u (msg_text message) r\<rparr>;
              s5 = count_urls s4 u (parse_urls message);
              s6 = (if CHR ''!'' \<in> set (msg_text message)
                    then s5\<lparr>user_exclamation := counter_incr (user_exclamation s5) u\<rparr> else s5);
              s7 = (if CHR ''?'' \<in> set (msg_text message)
                    then s6\<lparr>user_question := counter_incr (user_question s6) u\<rparr> else s6)
          in Inr s7))"

definition one_line :: "main_state \<Rightarrow> py_line \<Rightarrow> int \<Rightarrow> py_error + main_state" where
  "one_line self line r =
     py_bind (parse line) (\<lambda>message.
       case message of
         None \<Rightarrow> Inr (self\<lparr>stderr := stderr self @ [Skipped_line line]\<rparr>)
       | Some m \<Rightarrow> record_message self m r)"

text \<open>\<^verbatim>\<open>line.strip()\<close> in line 252, on a \<^verbatim>\<open>str\<close> or on \<^verbatim>\<open>bytes\<close>.\<close>

definition line_strip :: "py_line \<Rightarrow> py_line" where
  "line_strip l = (case l of Text s \<Rightarrow> Text (str_strip s) | Bytes b \<Rightarrow> Bytes (bytes_strip b))"

text \<open>
  Lines 241-252, for the lines of the files in the order read, those of a \<^verbatim>\<open>.gz\<close> file as
  \<^verbatim>\<open>bytes\<close> and those of any other file as \<^verbatim>\<open>str\<close>, each paired with the outcome of the
  draw made while it is processed: each line is stripped and handed to \<^verbatim>\<open>one_line\<close>; an
  exception ends the loop and leaves the method.
\<close>

fun bulk_lines :: "main_state \<Rightarrow> (py_line \<times> int) list \<Rightarrow> py_error + main_state" where
  "bulk_lines self [] = Inr self"
| "bulk_lines self ((line, r) # rest) =
     py_bind (one_line self (line_strip line) r) (\<lambda>self'. bulk_lines self' rest)"

section \<open>Main.save_page and main (lines 287-405)\<close>

text \<open>
  The dataclasses \<^verbatim>\<open>User\<close> and \<^verbatim>\<open>Url\<close>; their fields carry a prefix, since the
  selectors of all records share one name space.
\<close>

record user =
  user_id :: "int option"
  user_username :: string
  user_message_count :: int
  user_random_quote :: string

record url =
  url_address :: string
  url_use_count :: int
  url_last_used_username :: string

text \<open>\<^verbatim>\<open>html.escape(s)\<close> with the default \<^verbatim>\<open>quote=True\<close>.\<close>

definition html_escape :: "string \<Rightarrow> string" where
  "html_escape s =
     concat (map (\<lambda>c. if c = CHR ''&'' then ''&amp;''
                       else if c = CHR ''<'' then ''&lt;''
                       else if c = CHR ''>'' then ''&gt;''
                       else if c = CHR 0x22 then ''&quot;''
                       else if c = CHR 0x27 then ''&#x27;''
                       else [c]) s)"

text \<open>
  Lines 296-309. \<open>uid\<close> stands for \<^verbatim>\<open>self.api.uid\<close>, the lookup of the external service,
  which returns \<open>None\<close> when it fails. \<^verbatim>\<open>html.escape(None)\<close> raises \<^verbatim>\<open>AttributeError\<close>.
\<close>

fun most_active_loop ::
  "(string \<Rightarrow> int option) \<Rightarrow> (string, string) sampler \<Rightarrow> (string \<times> int) list
   \<Rightarrow> py_error + user list" where
  "most_active_loop uid smp [] = Inr []"
| "most_active_loop uid smp ((name, message_count) # rest) =
     (case get smp name of
        None \<Rightarrow> Inl AttributeError
      | Some random_quote \<Rightarrow>
          py_bind (most_active_loop uid smp rest) (\<lambda>users.
            Inr (\<lparr>user_id = uid name, user_username = name,
                  user_message_count = message_count,
                  user_random_quote = html_escape random_quote\<rparr> # users)))"

text \<open>
  Lines 311-317. \<^verbatim>\<open>sum/240.0\<close> converts the integer to a float, which raises
  \<^verbatim>\<open>OverflowError\<close> from \<open>2^1024 - 2^970\<close> on; the quotient is bound to the local
  \<^verbatim>\<open>sum\<close> and not read again, so its rounding is not modelled. \<^verbatim>\<open>int(x)\<close> of an integer
  \<open>x\<close> is \<open>x\<close>.
\<close>

definition float_of_int_ok :: "int \<Rightarrow> bool" where
  "float_of_int_ok n = (\<bar>n\<bar> < 2 ^ 1024 - 2 ^ 970)"

definition int_cast :: "int \<Rightarrow> int" where
  "int_cast x = x"

fun int_cast_loop :: "int list \<Rightarrow> nat list \<Rightarrow> py_error + int list" where
  "int_cast_loop graph [] = Inr graph"
| "int_cast_loop graph (i # rest) =
     (if i < length graph then int_cast_loop (graph[i := int_cast (graph ! i)]) rest
      else Inl IndexError)"

definition graph_percentage :: "int list \<Rightarrow> py_error + int list" where
  "graph_percentage graph =
     (let total = sum_list graph
      in if \<not> float_of_int_ok total then Inl OverflowError
         else (let quotient = (real_of_int total / 240 :: real)
               in int_cast_loop graph [0..<24]))"

text \<open>
  Lines 326-333. Reading \<^verbatim>\<open>self.last_url_usage[address]\<close> stores the empty string under
  an address that the \<^verbatim>\<open>defaultdict\<close> does not hold.
\<close>

definition last_used :: "(string \<rightharpoonup> string) \<Rightarrow> string \<Rightarrow> string" where
  "last_used m address = (case m address of None \<Rightarrow> [] | Some u \<Rightarrow> u)"

definition touch :: "(string \<rightharpoonup> string) \<Rightarrow> string \<Rightarrow> (string \<rightharpoonup> string)" where
  "touch m address = (case m address of None \<Rightarrow> m(address \<mapsto> []) | Some u \<Rightarrow> m)"

definition top10_urls :: "main_state \<Rightarrow> url list" where
  "top10_urls self =
     map (\<lambda>item. \<lparr>url_address = fst item, url_use_count = snd item,
                   url_last_used_username = last_used (last_url_usage self) (fst item)\<rparr>)
         (most_common_n 10 (url_count self))"

text \<open>
  The keyword arguments of \<^verbatim>\<open>self.template.render\<close> (lines 343-351) and the dictionary
  written by \<^verbatim>\<open>json.dump\<close> (lines 367-381), without the channel name. \<^verbatim>\<open>being\<close> is a
  dictionary with four fixed keys.
\<close>

record being =
  screaming :: "(string \<times> int) list"
  asking :: "(string \<times> int) list"
  telling :: "(string \<times> int) list"
  modding :: "(string \<times> int) list"

record template_args =
  tpl_most_active :: "user list"
  tpl_runner_ups :: "(string \<times> int) list"
  tpl_being :: being
  tpl_urls_used :: "url list"
  tpl_total :: "int list"
  tpl_activity_graph :: "int list"

record json_data =
  json_total_numbers :: "int list"
  json_most_active :: "(string \<times> int) list"
  json_runner_ups :: "(string \<times> int) list"
  json_being :: being
  json_most_used_urls :: "(string \<times> int) list"
  json_activity_graph :: "int list"

text \<open>
  \<^verbatim>\<open>save_page\<close>: the state it leaves, what it hands to the template and what it writes as
  JSON. Rendering the template and writing the two files are outside the model.
\<close>

definition save_page ::
  "(string \<Rightarrow> int option) \<Rightarrow> main_state \<Rightarrow> py_error + main_state \<times> template_args \<times> json_data" where
  "save_page uid self =
     (let users_messages_desc = most_common (user_messages self);
          capped_top25_len = min 25 (length users_messages_desc);
          top25 = take capped_top25_len users_messages_desc;
          capped_top35_len = min 35 (length users_messages_desc);
          runner_ups = drop capped_top25_len (take capped_top35_len users_messages_desc)
      in py_bind (most_active_loop uid (cache_user_messages self) top25) (\<lambda>most_active.
         py_bind (graph_percentage (activity_graph self)) (\<lambda>graph.
           let s1 = self\<lparr>activity_graph := graph,
                        stderr := stderr self @ map (\<lambda>item. Fetching_profile (fst item)) top25\<rparr>;
               being = \<lparr>screaming = most_common_n 2 (user_exclamation s1),
                        asking = most_common_n 2 (user_question s1),
                        telling = most_common_n 2 (user_actions s1),
                        modding = most_common_n 2 (user_givemodes s1)\<rparr>;
               urls = top10_urls s1;
               s2 = s1\<lparr>last_url_usage :=
                         fold (\<lambda>item m. touch m (fst item)) (most_common_n 10 (url_count s1))
                              (last_url_usage s1)\<rparr>;
               total_num = [counter_total (user_question s2), counter_total (user_exclamation s2),
                            counter_total (user_actions s2), counter_total (user_givemodes s2)];
               s3 = s2\<lparr>stderr := stderr s2 @ [Rendering_template]\<rparr>
           in Inr (s3,
                   \<lparr>tpl_most_active = most_active, tpl_runner_ups = runner_ups,
                    tpl_being = being, tpl_urls_used = urls, tpl_total = total_num,
                    tpl_activity_graph = activity_graph s3\<rparr>,
                   \<lparr>json_total_numbers = total_num,
                    json_most_active =
                      map (\<lambda>user. (user_username user, user_message_count user)) most_active,
                    json_runner_ups = runner_ups, json_being = being,
                    json_most_used_urls = map (\<lambda>url. (url_address url, url_use_count url)) urls,
                    json_activity_graph = activity_graph s3\<rparr>))))"

text \<open>\<^verbatim>\<open>main\<close>, lines 398-405: \<^verbatim>\<open>save_page\<close> runs only if \<^verbatim>\<open>bulk_lines\<close> returned.\<close>

definition main_run ::
  "(string \<Rightarrow> int option) \<Rightarrow> (py_line \<times> int) list
   \<Rightarrow> py_error + main_state \<times> template_args \<times> json_data" where
  "main_run uid lines = py_bind (bulk_lines main_init lines) (save_page uid)"

section \<open>Events of a run\<close>

text \<open>
  What a run has to count: \<open>counted_at h line\<close> says that the stripped line parses to an
  ordinary or action message of hour \<open>h\<close>, and \<open>hour_count h lines\<close> is the number of such
  lines read.
\<close>

definition counted_at :: "nat \<Rightarrow> py_line \<Rightarrow> bool" where
  "counted_at h line =
     (case parse line of
        Inr (Some m) \<Rightarrow> line_type m \<noteq> MODE_CHANGE \<and> hour (time m) = int h
      | _ \<Rightarrow> False)"

definition hour_count :: "nat \<Rightarrow> (py_line \<times> int) list \<Rightarrow> int" where
  "hour_count h lines =
     int (length (filter (\<lambda>item. counted_at h (line_strip (fst item))) lines))"

section \<open>The sampler holds one of the values it was shown\<close>

lemma get_consider_other: "k' \<noteq> k \<Longrightarrow> get (consider_kv smp k v r) k' = get smp k'"
  by (simp add: consider_kv_def get_def Let_def)

lemma get_consider_fresh: "get smp k = None \<Longrightarrow> get (consider_kv smp k v r) k = Some v"
  by (simp add: consider_kv_def get_def Let_def)

lemma get_consider_held:
  "get smp k = Some h \<Longrightarrow> get (consider_kv smp k v r) k = Some v \<or> get (consider_kv smp k v r) k = Some h"
  by (simp add: consider_kv_def get_def Let_def)

lemma get_consider_all_absent:
  "values_of k ops = [] \<Longrightarrow> get (consider_all smp ops) k = get smp k"
proof (induction ops arbitrary: smp)
  case Nil
  show ?case by simp
next
  case (Cons op ops)
  obtain k' v r where op: "op = (k', v, r)" by (cases op) auto
  from Cons.prems op have ne: "k' \<noteq> k" and rest: "values_of k ops = []"
    by (auto simp: values_of_def split: if_splits)
  from Cons.IH [OF rest] ne op show ?case
    by (simp add: get_consider_other)
qed

lemma values_of_Cons_same: "values_of k ((k, v, r) # ops) = v # values_of k ops"
  by (simp add: values_of_def)

lemma values_of_Cons_other: "k' \<noteq> k \<Longrightarrow> values_of k ((k', v, r) # ops) = values_of k ops"
  by (simp add: values_of_def)

lemma get_sampler_init: "get sampler_init k = None"
  by (simp add: get_def sampler_init_def)

lemma get_consider_all_held:
  "get smp k = Some h \<Longrightarrow>
   \<exists>x. get (consider_all smp ops) k = Some x \<and> (x = h \<or> x \<in> set (values_of k ops))"
proof (induction ops arbitrary: smp h)
  case Nil
  then show ?case by simp
next
  case (Cons op ops)
  obtain k' v r where op: "op = (k', v, r)" by (cases op) auto
  show ?case
  proof (cases "k' = k")
    case False
    with Cons.prems have "get (consider_kv smp k' v r) k = Some h"
      by (simp add: get_consider_other)
    from Cons.IH [OF this] False op show ?thesis
      by (simp add: values_of_Cons_other)
  next
    case True
    from get_consider_held [OF Cons.prems, of v r]
    obtain h' where held: "get (consider_kv smp k v r) k = Some h'" and h': "h' = v \<or> h' = h"
      by blast
    from Cons.IH [OF held] obtain x
      where x: "get (consider_all (consider_kv smp k v r) ops) k = Some x"
        and mem: "x = h' \<or> x \<in> set (values_of k ops)"
      by blast
    from mem h' have "x = h \<or> x \<in> set (v # values_of k ops)"
      by auto
    with x True op show ?thesis
      by (simp add: values_of_Cons_same)
  qed
qed

lemma get_consider_all_fresh:
  "get smp k = None \<Longrightarrow> values_of k ops \<noteq> [] \<Longrightarrow>
   \<exists>x. get (consider_all smp ops) k = Some x \<and> x \<in> set (values_of k ops)"
proof (induction ops arbitrary: smp)
  case Nil
  then show ?case by (simp add: values_of_def)
next
  case (Cons op ops)
  obtain k' v r where op: "op = (k', v, r)" by (cases op) auto
  show ?case
  proof (cases "k' = k")
    case False
    with Cons.prems have "get (consider_kv smp k' v r) k = None"
      by (simp add: get_consider_other)
    moreover from False Cons.prems op have "values_of k ops \<noteq> []"
      by (simp add: values_of_Cons_other)
    ultimately show ?thesis
      using Cons.IH [of "consider_kv smp k' v r"] False op
      by (simp add: values_of_Cons_other)
  next
    case True
    from Cons.prems have "get (consider_kv smp k v r) k = Some v"
      by (simp add: get_consider_fresh)
    from get_consider_all_held [OF this, of ops] True op show ?thesis
      by (simp add: values_of_Cons_same)
  qed
qed

text \<open>
  Claim C6. Starting from a new sampler and after any sequence of \<^verbatim>\<open>consider\<close> calls, on any
  keys and with any outcomes of the draws: \<^verbatim>\<open>get(k)\<close> is \<open>None\<close> when no call had key \<open>k\<close>;
  it is \<open>v\<close> when exactly one call had key \<open>k\<close>, with value \<open>v\<close>; and when at least one call
  had key \<open>k\<close> it is one of the values passed under \<open>k\<close>.
\<close>

theorem reservoir_get_one_of_considered:
  "(values_of k ops = [] \<longrightarrow> get (consider_all sampler_init ops) k = None) \<and>
   (values_of k ops = [v] \<longrightarrow> get (consider_all sampler_init ops) k = Some v) \<and>
   (values_of k ops \<noteq> [] \<longrightarrow>
      (\<exists>x \<in> set (values_of k ops). get (consider_all sampler_init ops) k = Some x))"
proof -
  have a: "values_of k ops = [] \<longrightarrow> get (consider_all sampler_init ops) k = None"
    using get_consider_all_absent [of k ops sampler_init] by (simp add: get_sampler_init)
  have c: "values_of k ops \<noteq> [] \<longrightarrow>
      (\<exists>x \<in> set (values_of k ops). get (consider_all sampler_init ops) k = Some x)"
    using get_consider_all_fresh [OF get_sampler_init, of k ops] by blast
  have b: "values_of k ops = [v] \<longrightarrow> get (consider_all sampler_init ops) k = Some v"
    using c by auto
  from a b c show ?thesis by blast
qed

theorem reservoir_get_one_of_considered_witness:
  "values_of ''b'' [(''a'', ''x'', 1), (''a'', ''y'', 2), (''c'', ''z'', 1), (''a'', ''w'', 1)] = []
   \<and> get (consider_all sampler_init
            [(''a'', ''x'', 1), (''a'', ''y'', 2), (''c'', ''z'', 1), (''a'', ''w'', 1)]) ''b'' = None
   \<and> values_of ''c'' [(''a'', ''x'', 1), (''a'', ''y'', 2), (''c'', ''z'', 1), (''a'', ''w'', 1)] = [''z'']
   \<and> get (consider_all sampler_init
            [(''a'', ''x'', 1), (''a'', ''y'', 2), (''c'', ''z'', 1), (''a'', ''w'', 1)]) ''c'' = Some ''z''
   \<and> values_of ''a'' [(''a'', ''x'', 1), (''a'', ''y'', 2), (''c'', ''z'', 1), (''a'', ''w'', 1)]
       = [''x'', ''y'', ''w'']
   \<and> (\<exists>x \<in> set [''x'', ''y'', ''w''].
         get (consider_all sampler_init
            [(''a'', ''x'', 1), (''a'', ''y'', 2), (''c'', ''z'', 1), (''a'', ''w'', 1)]) ''a'' = Some x)"
proof -
  let ?ops = "[(''a'', ''x'', 1::int), (''a'', ''y'', 2), (''c'', ''z'', 1), (''a'', ''w'', 1)]"
  have vb: "values_of ''b'' ?ops = []" by (simp add: values_of_def)
  have vc: "values_of ''c'' ?ops = [''z'']" by (simp add: values_of_def)
  have va: "values_of ''a'' ?ops = [''x'', ''y'', ''w'']" by (simp add: values_of_def)
  from reservoir_get_one_of_considered [of "''b''" ?ops] vb
  have 1: "get (consider_all sampler_init ?ops) ''b'' = None" by simp
  from reservoir_get_one_of_considered [of "''c''" ?ops "''z''"] vc
  have 2: "get (consider_all sampler_init ?ops) ''c'' = Some ''z''" by simp
  from reservoir_get_one_of_considered [of "''a''" ?ops] va
  have 3: "\<exists>x \<in> set [''x'', ''y'', ''w''].
             get (consider_all sampler_init ?ops) ''a'' = Some x"
    by simp
  from vb vc va 1 2 3 show ?thesis by blast
qed

section \<open>Sequencing, counters and the loop over lines\<close>

lemma py_bind_Inr [simp]: "py_bind (Inr v) f = f v"
  by (simp add: py_bind_def)

lemma py_bind_Inl [simp]: "py_bind (Inl e) f = Inl e"
  by (simp add: py_bind_def)

lemma py_bind_eq_Inr:
  "py_bind m f = Inr y \<longleftrightarrow> (\<exists>v. m = Inr v \<and> f v = Inr y)"
  by (cases m) simp_all

lemma bulk_lines_append:
  "bulk_lines self (xs @ ys) = py_bind (bulk_lines self xs) (\<lambda>self'. bulk_lines self' ys)"
proof (induction xs arbitrary: self)
  case Nil
  show ?case by simp
next
  case (Cons x xs)
  obtain line r where x: "x = (line, r)" by (cases x)
  show ?case
  proof (cases "one_line self (line_strip line) r")
    case (Inl e)
    with x show ?thesis by simp
  next
    case (Inr s1)
    with x Cons.IH [of s1] show ?thesis by simp
  qed
qed

lemma counter_get_incr:
  "counter_get (counter_incr c k) k' = (if k' = k then counter_get c k + 1 else counter_get c k')"
  by (simp add: counter_get_def counter_incr_def update_conv')

lemma keys_counter_incr: "fst ` set (counter_incr c k) = insert k (fst ` set c)"
  by (simp add: counter_incr_def dom_update)

section \<open>Lines that cannot start with a timestamp\<close>

text \<open>
  A \<^verbatim>\<open>str\<close> line shorter than 7 characters, or whose first character is not an ASCII
  digit, makes \<^verbatim>\<open>ChatMessage.parse\<close> return \<open>None\<close> without raising; \<^verbatim>\<open>one_line\<close> then
  only prints the "Skipped line" message and returns, and \<^verbatim>\<open>bulk_lines\<close> goes on with the
  next line.
\<close>

lemma text_line_skipped:
  assumes "length line < 7 \<or> \<not> (char_le CHR ''0'' (line ! 0) \<and> char_le (line ! 0) CHR ''9'')"
  shows "parse (Text line) = Inr None
       \<and> one_line self (Text line) r
           = Inr (self\<lparr>stderr := stderr self @ [Skipped_line (Text line)]\<rparr>)
       \<and> (str_strip raw = line \<longrightarrow>
            bulk_lines self ((Text raw, r) # rest)
              = bulk_lines (self\<lparr>stderr := stderr self @ [Skipped_line (Text line)]\<rparr>) rest)"
proof -
  from assms have p: "parse (Text line) = Inr None"
    by (simp add: parse_def)
  then have o: "one_line self (Text line) r
                  = Inr (self\<lparr>stderr := stderr self @ [Skipped_line (Text line)]\<rparr>)"
    by (simp add: one_line_def)
  from p o show ?thesis by (simp add: line_strip_def)
qed

text \<open>
  A \<^verbatim>\<open>bytes\<close> line, as read from a \<^verbatim>\<open>.gz\<close> file, is skipped in the same way when it has
  fewer than 7 bytes. With 7 bytes or more, whatever its first byte, line 83 raises
  \<^verbatim>\<open>TypeError\<close>, which leaves \<^verbatim>\<open>one_line\<close> and \<^verbatim>\<open>bulk_lines\<close>.
\<close>

lemma bytes_line_short_skipped:
  "length line < 7 \<Longrightarrow>
   parse (Bytes line) = Inr None
   \<and> one_line self (Bytes line) r
       = Inr (self\<lparr>stderr := stderr self @ [Skipped_line (Bytes line)]\<rparr>)"
  by (simp add: parse_def one_line_def)

lemma bytes_line_raises:
  "7 \<le> length line \<Longrightarrow>
   parse (Bytes line) = Inl TypeError
   \<and> one_line self (Bytes line) r = Inl TypeError
   \<and> (bytes_strip raw = line \<longrightarrow> bulk_lines self ((Bytes raw, r) # rest) = Inl TypeError)"
  by (simp add: parse_def one_line_def line_strip_def)

text \<open>
  Claim C8, evaluated on the first line of a \<^verbatim>\<open>.gz\<close> log. The line
  \<^verbatim>\<open>--- Log opened Sat Jan 01 00:00:00 2022\<close> does not start with a digit, so the claim
  says that it is skipped and that the next line is processed. Read from a \<^verbatim>\<open>.gz\<close> file it
  is \<^verbatim>\<open>bytes\<close>: \<^verbatim>\<open>ChatMessage.parse\<close> raises \<^verbatim>\<open>TypeError\<close>, nothing is printed, and the
  exception leaves \<^verbatim>\<open>one_line\<close>, \<^verbatim>\<open>bulk_lines\<close> and \<^verbatim>\<open>main\<close> before the next line is read.
  The same line read from a text file is skipped.
\<close>

theorem gz_undated_line_raises:
  "\<not> (char_le CHR ''0'' (''--- Log opened Sat Jan 01 00:00:00 2022'' ! 0)
        \<and> char_le (''--- Log opened Sat Jan 01 00:00:00 2022'' ! 0) CHR ''9'')
   \<and> parse (Bytes ''--- Log opened Sat Jan 01 00:00:00 2022'') = Inl TypeError
   \<and> one_line main_init (Bytes ''--- Log opened Sat Jan 01 00:00:00 2022'') 1 = Inl TypeError
   \<and> bulk_lines main_init
         [(Bytes (''--- Log opened Sat Jan 01 00:00:00 2022'' @ [CHR 0x0A]), 1),
          (Bytes (''10:15:00 * nick1 waves'' @ [CHR 0x0A]), 1)] = Inl TypeError
   \<and> main_run (\<lambda>_. None)
         [(Bytes (''--- Log opened Sat Jan 01 00:00:00 2022'' @ [CHR 0x0A]), 1),
          (Bytes (''10:15:00 * nick1 waves'' @ [CHR 0x0A]), 1)] = Inl TypeError
   \<and> one_line main_init (Text ''--- Log opened Sat Jan 01 00:00:00 2022'') 1
       = Inr (main_init\<lparr>stderr :=
                [Skipped_line (Text ''--- Log opened Sat Jan 01 00:00:00 2022'')]\<rparr>)"
proof -
  let ?line = "''--- Log opened Sat Jan 01 00:00:00 2022''"
  have first: "\<not> (char_le CHR ''0'' (?line ! 0) \<and> char_le (?line ! 0) CHR ''9'')"
    by (simp add: char_le_def)
  have strip: "bytes_strip (?line @ [CHR 0x0A]) = ?line"
    by code_simp
  have long: "7 \<le> length ?line"
    by simp
  from bytes_line_raises [OF long, of main_init 1 "?line @ [CHR 0x0A]"] strip
  have raises: "parse (Bytes ?line) = Inl TypeError
      \<and> one_line main_init (Bytes ?line) 1 = Inl TypeError
      \<and> bulk_lines main_init
           [(Bytes (?line @ [CHR 0x0A]), 1), (Bytes (''10:15:00 * nick1 waves'' @ [CHR 0x0A]), 1)]
          = Inl TypeError"
    by blast
  then have main: "main_run (\<lambda>_. None)
           [(Bytes (?line @ [CHR 0x0A]), 1), (Bytes (''10:15:00 * nick1 waves'' @ [CHR 0x0A]), 1)]
          = Inl TypeError"
    by (simp only: main_run_def py_bind_Inl)
  from first have "length ?line < 7 \<or> \<not> (char_le CHR ''0'' (?line ! 0) \<and> char_le (?line ! 0) CHR ''9'')"
    by blast
  from text_line_skipped [OF this, of main_init 1]
  have plain: "one_line main_init (Text ?line) 1
       = Inr (main_init\<lparr>stderr := [Skipped_line (Text ?line)]\<rparr>)"
    by (simp add: main_init_def)
  from first raises main plain show ?thesis
    by blast
qed

lemma counter_get_incr_all:
  "counter_get (counter_incr c k) = (counter_get c)(k := counter_get c k + 1)"
  by (rule ext) (simp add: counter_get_incr)

section \<open>Mode changes\<close>

text \<open>
  Claim C7. When the line parses to a mode-change message, \<^verbatim>\<open>one_line\<close> returns the state
  it was given with one field changed, \<^verbatim>\<open>user_givemodes\<close>, in which the count of the
  message's author is one higher and every other count is the same. The hourly histogram,
  the message, question, exclamation and action counters, the URL counters, the last-used-by
  map, the sampler and the log are those of the state before.
\<close>

theorem mode_change_only_counts_givemodes:
  assumes "parse line = Inr (Some m)" and "line_type m = MODE_CHANGE"
  shows "one_line self line r
           = Inr (self\<lparr>user_givemodes := counter_incr (user_givemodes self) (username m)\<rparr>)
       \<and> counter_get (counter_incr (user_givemodes self) (username m))
           = (counter_get (user_givemodes self))
               (username m := counter_get (user_givemodes self) (username m) + 1)"
  using assms by (simp add: one_line_def record_message_def counter_get_incr_all)

theorem mode_change_only_counts_givemodes_witness:
  "parse (Text ''11:00:00 -!- mode/#c [+o nick2] by Bot'')
     = Inr (Some \<lparr>time = \<lparr>hour = 11, minute = 0, second = 0, microsecond = 0\<rparr>,
                  username = ''nick2'', msg_text = [], line_type = MODE_CHANGE\<rparr>)
   \<and> one_line main_init (Text ''11:00:00 -!- mode/#c [+o nick2] by Bot'') 1
     = Inr (main_init\<lparr>user_givemodes := [(''nick2'', 1)]\<rparr>)"
proof -
  let ?m = "\<lparr>time = \<lparr>hour = 11, minute = 0, second = 0, microsecond = 0\<rparr>,
             username = ''nick2'', msg_text = [], line_type = MODE_CHANGE\<rparr>"
  have p: "parse (Text ''11:00:00 -!- mode/#c [+o nick2] by Bot'') = Inr (Some ?m)"
    by code_simp
  have t: "line_type ?m = MODE_CHANGE"
    by simp
  have g: "counter_incr (user_givemodes main_init) ''nick2'' = [(''nick2'', 1)]"
    by (simp add: main_init_def counter_incr_def counter_get_def)
  from mode_change_only_counts_givemodes [OF p t, of main_init 1] g p show ?thesis
    by simp
qed

section \<open>Unknown discriminator\<close>

text \<open>
  Claim C4. A line that passes the length and leading-digit check, whose first token parses
  as a time and whose second token starts with a character other than \<^verbatim>\<open>*\<close>, \<^verbatim>\<open><\<close> and
  \<^verbatim>\<open>-\<close>, makes \<^verbatim>\<open>ChatMessage.parse\<close> raise the \<^verbatim>\<open>RuntimeError\<close> of line 118. Nothing
  catches it: it leaves \<^verbatim>\<open>one_line\<close>, \<^verbatim>\<open>bulk_lines\<close> and \<^verbatim>\<open>main\<close>, whatever lines
  follow, and \<^verbatim>\<open>save_page\<close> does not run.
\<close>

theorem unknown_discriminator_is_fatal:
  assumes guard: "\<not> (length line < 7 \<or> \<not> (char_le CHR ''0'' (line ! 0) \<and> char_le (line ! 0) CHR ''9''))"
    and tokens: "str_split line = token0 # (d # ds) # tokens"
    and stamp: "parse_time token0 = Inr t"
    and other: "d \<noteq> CHR ''*'' \<and> d \<noteq> CHR ''<'' \<and> d \<noteq> CHR ''-''"
  shows "parse (Text line) = Inl (RuntimeError line d (d # ds))
       \<and> one_line self (Text line) r = Inl (RuntimeError line d (d # ds))
       \<and> (str_strip raw = line \<and> bulk_lines main_init before = Inr self \<longrightarrow>
            bulk_lines main_init (before @ (Text raw, r) # rest) = Inl (RuntimeError line d (d # ds))
          \<and> main_run uid (before @ (Text raw, r) # rest) = Inl (RuntimeError line d (d # ds)))"
proof -
  from guard tokens stamp other have p: "parse (Text line) = Inl (RuntimeError line d (d # ds))"
    by (simp add: parse_def py_index_def)
  then have o: "one_line self (Text line) r = Inl (RuntimeError line d (d # ds))"
    by (simp add: one_line_def)
  have "bulk_lines main_init (before @ (Text raw, r) # rest) = Inl (RuntimeError line d (d # ds))"
    if "str_strip raw = line" and "bulk_lines main_init before = Inr self"
    using that o by (simp add: bulk_lines_append line_strip_def)
  with p o show ?thesis
    by (simp add: main_run_def)
qed

theorem unknown_discriminator_is_fatal_witness:
  "\<not> (length ''10:00:00 !nick joined'' < 7
       \<or> \<not> (char_le CHR ''0'' (''10:00:00 !nick joined'' ! 0)
            \<and> char_le (''10:00:00 !nick joined'' ! 0) CHR ''9''))
   \<and> str_split ''10:00:00 !nick joined'' = [''10:00:00'', ''!nick'', ''joined'']
   \<and> parse_time ''10:00:00'' = Inr \<lparr>hour = 10, minute = 0, second = 0, microsecond = 0\<rparr>
   \<and> str_strip ''10:00:00 !nick joined  '' = ''10:00:00 !nick joined''
   \<and> bulk_lines main_init [(Text ''--- Log opened'', 1)]
        = Inr (main_init\<lparr>stderr := [Skipped_line (Text ''--- Log opened'')]\<rparr>)
   \<and> parse (Text ''10:00:00 !nick joined'')
        = Inl (RuntimeError ''10:00:00 !nick joined'' CHR ''!'' ''!nick'')
   \<and> main_run (\<lambda>_. None)
        [(Text ''--- Log opened'', 1), (Text ''10:00:00 !nick joined  '', 1), (Text ''10:00:01 * a b'', 1)]
        = Inl (RuntimeError ''10:00:00 !nick joined'' CHR ''!'' ''!nick'')"
proof -
  let ?line = "''10:00:00 !nick joined''"
  have guard: "\<not> (length ?line < 7
       \<or> \<not> (char_le CHR ''0'' (?line ! 0) \<and> char_le (?line ! 0) CHR ''9''))"
    by (simp add: char_le_def)
  have tokens: "str_split ?line = ''10:00:00'' # (CHR ''!'' # ''nick'') # [''joined'']"
    by code_simp
  have stamp: "parse_time ''10:00:00'' = Inr \<lparr>hour = 10, minute = 0, second = 0, microsecond = 0\<rparr>"
    by code_simp
  have other: "CHR ''!'' \<noteq> CHR ''*'' \<and> CHR ''!'' \<noteq> CHR ''<'' \<and> CHR ''!'' \<noteq> CHR ''-''"
    by simp
  have strip: "str_strip ''10:00:00 !nick joined  '' = ?line"
    by code_simp
  have before: "bulk_lines main_init [(Text ''--- Log opened'', 1)]
        = Inr (main_init\<lparr>stderr := [Skipped_line (Text ''--- Log opened'')]\<rparr>)"
    by (simp add: one_line_def parse_def char_le_def line_strip_def str_strip_def isspace_def
        main_init_def)
  from unknown_discriminator_is_fatal [OF guard tokens stamp other,
      of "main_init\<lparr>stderr := [Skipped_line (Text ''--- Log opened'')]\<rparr>" 1
         "''10:00:00 !nick joined  ''" "[(Text ''--- Log opened'', 1)]" "[(Text ''10:00:01 * a b'', 1)]"
         "\<lambda>_. None"]
    strip before
  have "parse (Text ?line) = Inl (RuntimeError ?line CHR ''!'' ''!nick'')
      \<and> main_run (\<lambda>_. None)
        [(Text ''--- Log opened'', 1), (Text ''10:00:00 !nick joined  '', 1), (Text ''10:00:01 * a b'', 1)]
        = Inl (RuntimeError ?line CHR ''!'' ''!nick'')"
    by simp
  with guard tokens stamp strip before show ?thesis
    by simp
qed

section \<open>A timestamp that does not parse\<close>

lemma py_int_error: "py_int s = Inl e \<Longrightarrow> e = ValueError"
  by (auto simp: py_int_def Let_def split: option.splits if_splits)

lemma py_sequence_error: "py_sequence ms = Inl e \<Longrightarrow> Inl e \<in> set ms"
  by (induction ms) (auto split: sum.splits)

lemma py_sequence_raises:
  "\<exists>m \<in> set ms. \<exists>e. m = Inl e \<Longrightarrow> \<exists>e. py_sequence ms = Inl e"
proof (induction ms)
  case Nil
  then show ?case by simp
next
  case (Cons m ms)
  show ?case
  proof (cases m)
    case (Inl e)
    then show ?thesis by simp
  next
    case (Inr v)
    with Cons.prems have "\<exists>m \<in> set ms. \<exists>e. m = Inl e" by auto
    from Cons.IH [OF this] Inr show ?thesis by auto
  qed
qed

lemma py_sequence_py_int_error:
  "py_sequence (map py_int pieces) = Inl e \<Longrightarrow> e = ValueError"
  by (auto dest!: py_sequence_error dest: py_int_error [OF sym])

lemma py_sequence_py_int_raises:
  assumes "\<exists>piece \<in> set pieces. \<exists>e. py_int piece = Inl e"
  shows "py_sequence (map py_int pieces) = Inl ValueError"
proof -
  from assms have "\<exists>m \<in> set (map py_int pieces). \<exists>e. m = Inl e"
    by auto
  from py_sequence_raises [OF this] obtain e where e: "py_sequence (map py_int pieces) = Inl e"
    by blast
  with py_sequence_py_int_error [OF e] show ?thesis by simp
qed

lemma datetime_time_raises:
  assumes "arg_or_zero args 0 < 0 \<or> 23 < arg_or_zero args 0
         \<or> arg_or_zero args 1 < 0 \<or> 59 < arg_or_zero args 1
         \<or> arg_or_zero args 2 < 0 \<or> 59 < arg_or_zero args 2"
  shows "datetime_time args
           = Inl (if 6 < length args then TypeError
                  else if \<not> list_all c_int_ok (take 4 args) then OverflowError
                  else if length args = 6 then TypeError else ValueError)"
  using assms by (auto simp: datetime_time_def Let_def)

text \<open>
  Claim C2 says that a line whose first token has a component that is not a number, or is
  out of range, is skipped like a short line. It is not: at \<^verbatim>\<open>25:00:00 <a> hi\<close> and
  at \<^verbatim>\<open>1x:00:00 <a> hi\<close>, \<^verbatim>\<open>ChatMessage.parse\<close> raises \<^verbatim>\<open>ValueError\<close> at line 87, and
  \<^verbatim>\<open>one_line\<close> and \<^verbatim>\<open>bulk_lines\<close> raise it too, so that the line after it is not read.
\<close>

theorem bad_timestamp_counterexample:
  "\<not> (length ''25:00:00 <a> hi'' < 7
       \<or> \<not> (char_le CHR ''0'' (''25:00:00 <a> hi'' ! 0) \<and> char_le (''25:00:00 <a> hi'' ! 0) CHR ''9''))
   \<and> str_split ''25:00:00 <a> hi'' = [''25:00:00'', ''<a>'', ''hi'']
   \<and> map py_int (str_split_sep CHR '':'' ''25:00:00'') = [Inr 25, Inr 0, Inr 0]
   \<and> parse (Text ''25:00:00 <a> hi'') = Inl ValueError
   \<and> one_line main_init (Text ''25:00:00 <a> hi'') 1 = Inl ValueError
   \<and> bulk_lines main_init [(Text ''25:00:00 <a> hi'', 1), (Text ''10:00:00 * a b'', 1)]
       = Inl ValueError
   \<and> str_split ''1x:00:00 <a> hi'' = [''1x:00:00'', ''<a>'', ''hi'']
   \<and> map py_int (str_split_sep CHR '':'' ''1x:00:00'') = [Inl ValueError, Inr 0, Inr 0]
   \<and> parse (Text ''1x:00:00 <a> hi'') = Inl ValueError
   \<and> bulk_lines main_init [(Text ''1x:00:00 <a> hi'', 1), (Text ''10:00:00 * a b'', 1)]
       = Inl ValueError"
proof -
  have p: "parse (Text ''25:00:00 <a> hi'') = Inl ValueError" by code_simp
  have q: "parse (Text ''1x:00:00 <a> hi'') = Inl ValueError" by code_simp
  have s1: "line_strip (Text ''25:00:00 <a> hi'') = Text ''25:00:00 <a> hi''" by code_simp
  have s2: "line_strip (Text ''1x:00:00 <a> hi'') = Text ''1x:00:00 <a> hi''" by code_simp
  have g: "\<not> (length ''25:00:00 <a> hi'' < 7
       \<or> \<not> (char_le CHR ''0'' (''25:00:00 <a> hi'' ! 0) \<and> char_le (''25:00:00 <a> hi'' ! 0) CHR ''9''))"
    by code_simp
  have t1: "str_split ''25:00:00 <a> hi'' = [''25:00:00'', ''<a>'', ''hi'']" by code_simp
  have t2: "str_split ''1x:00:00 <a> hi'' = [''1x:00:00'', ''<a>'', ''hi'']" by code_simp
  have i1: "map py_int (str_split_sep CHR '':'' ''25:00:00'') = [Inr 25, Inr 0, Inr 0]" by code_simp
  have i2: "map py_int (str_split_sep CHR '':'' ''1x:00:00'') = [Inl ValueError, Inr 0, Inr 0]"
    by code_simp
  from p have o1: "one_line main_init (Text ''25:00:00 <a> hi'') 1 = Inl ValueError"
    by (simp add: one_line_def)
  from q have o2: "one_line main_init (Text ''1x:00:00 <a> hi'') 1 = Inl ValueError"
    by (simp add: one_line_def)
  from o1 s1
  have b1: "bulk_lines main_init [(Text ''25:00:00 <a> hi'', 1), (Text ''10:00:00 * a b'', 1)]
            = Inl ValueError"
    by simp
  from o2 s2
  have b2: "bulk_lines main_init [(Text ''1x:00:00 <a> hi'', 1), (Text ''10:00:00 * a b'', 1)]
            = Inl ValueError"
    by simp
  from g t1 i1 p o1 b1 t2 i2 q b2 show ?thesis by blast
qed

text \<open>
  Claim C2 as amended. Let a \<^verbatim>\<open>str\<close> line pass the length and leading-digit check. If
  \<^verbatim>\<open>int\<close> raises on a colon-separated component of its first token, or if all components
  convert and the hour is outside 0..23 or the minute or the second outside 0..59, then
  \<^verbatim>\<open>ChatMessage.parse\<close> raises an exception: \<^verbatim>\<open>ValueError\<close> when \<^verbatim>\<open>int\<close> raises on a
  component; otherwise \<^verbatim>\<open>TypeError\<close> when there are more than six components; otherwise
  \<^verbatim>\<open>OverflowError\<close> when one of the first four does not fit a C \<^verbatim>\<open>int\<close>; otherwise
  \<^verbatim>\<open>TypeError\<close> when there are six components; otherwise \<^verbatim>\<open>ValueError\<close>. No message is
  produced and nothing is printed; the exception leaves \<^verbatim>\<open>one_line\<close>, \<^verbatim>\<open>bulk_lines\<close> and
  \<^verbatim>\<open>main\<close>, whatever lines follow.
\<close>

theorem bad_timestamp_raises:
  assumes guard: "\<not> (length line < 7 \<or> \<not> (char_le CHR ''0'' (line ! 0) \<and> char_le (line ! 0) CHR ''9''))"
    and tokens: "str_split line = token0 # tokens"
    and bad: "(\<exists>piece \<in> set (str_split_sep CHR '':'' token0). \<exists>e. py_int piece = Inl e)
            \<or> (\<exists>args. py_sequence (map py_int (str_split_sep CHR '':'' token0)) = Inr args
                  \<and> (arg_or_zero args 0 < 0 \<or> 23 < arg_or_zero args 0
                     \<or> arg_or_zero args 1 < 0 \<or> 59 < arg_or_zero args 1
                     \<or> arg_or_zero args 2 < 0 \<or> 59 < arg_or_zero args 2))"
  shows "\<exists>e. parse (Text line) = Inl e
           \<and> one_line self (Text line) r = Inl e
           \<and> (str_strip raw = line \<and> bulk_lines main_init before = Inr self \<longrightarrow>
                bulk_lines main_init (before @ (Text raw, r) # rest) = Inl e
              \<and> main_run uid (before @ (Text raw, r) # rest) = Inl e)
           \<and> e = (case py_sequence (map py_int (str_split_sep CHR '':'' token0)) of
                    Inl _ \<Rightarrow> ValueError
                  | Inr args \<Rightarrow>
                      if 6 < length args then TypeError
                      else if \<not> list_all c_int_ok (take 4 args) then OverflowError
                      else if length args = 6 then TypeError
                      else ValueError)
           \<and> ((\<exists>piece \<in> set (str_split_sep CHR '':'' token0). \<exists>e'. py_int piece = Inl e')
                \<longrightarrow> e = ValueError)"
proof -
  let ?pieces = "str_split_sep CHR '':'' token0"
  define kind where "kind = (case py_sequence (map py_int ?pieces) of
                    Inl _ \<Rightarrow> ValueError
                  | Inr args \<Rightarrow>
                      if 6 < length args then TypeError
                      else if \<not> list_all c_int_ok (take 4 args) then OverflowError
                      else if length args = 6 then TypeError
                      else ValueError)"
  have first: "kind = ValueError" if "\<exists>piece \<in> set ?pieces. \<exists>e'. py_int piece = Inl e'"
    using py_sequence_py_int_raises [OF that] by (simp add: kind_def)
  from bad have e: "parse_time token0 = Inl kind"
  proof
    assume fails: "\<exists>piece \<in> set ?pieces. \<exists>e. py_int piece = Inl e"
    from py_sequence_py_int_raises [OF fails] show ?thesis
      by (simp add: parse_time_def kind_def)
  next
    assume "\<exists>args. py_sequence (map py_int ?pieces) = Inr args
                  \<and> (arg_or_zero args 0 < 0 \<or> 23 < arg_or_zero args 0
                     \<or> arg_or_zero args 1 < 0 \<or> 59 < arg_or_zero args 1
                     \<or> arg_or_zero args 2 < 0 \<or> 59 < arg_or_zero args 2)"
    then obtain args where
      a: "py_sequence (map py_int ?pieces) = Inr args"
      and b: "arg_or_zero args 0 < 0 \<or> 23 < arg_or_zero args 0
                     \<or> arg_or_zero args 1 < 0 \<or> 59 < arg_or_zero args 1
                     \<or> arg_or_zero args 2 < 0 \<or> 59 < arg_or_zero args 2"
      by blast
    from datetime_time_raises [OF b] a show ?thesis
      by (simp add: parse_time_def kind_def)
  qed
  with guard tokens have p: "parse (Text line) = Inl kind"
    by (simp add: parse_def py_index_def)
  then have o: "one_line self (Text line) r = Inl kind"
    by (simp add: one_line_def)
  have "bulk_lines main_init (before @ (Text raw, r) # rest) = Inl kind"
    if "str_strip raw = line" and "bulk_lines main_init before = Inr self"
    using that o by (simp add: bulk_lines_append line_strip_def)
  with p o first have "parse (Text line) = Inl kind
           \<and> one_line self (Text line) r = Inl kind
           \<and> (str_strip raw = line \<and> bulk_lines main_init before = Inr self \<longrightarrow>
                bulk_lines main_init (before @ (Text raw, r) # rest) = Inl kind
              \<and> main_run uid (before @ (Text raw, r) # rest) = Inl kind)
           \<and> kind = kind
           \<and> ((\<exists>piece \<in> set ?pieces. \<exists>e'. py_int piece = Inl e') \<longrightarrow> kind = ValueError)"
    by (simp add: main_run_def)
  then show ?thesis
    unfolding kind_def by (rule exI)
qed

theorem bad_timestamp_raises_witness:
  "\<not> (length ''10:61:00 <a> hi'' < 7
       \<or> \<not> (char_le CHR ''0'' (''10:61:00 <a> hi'' ! 0) \<and> char_le (''10:61:00 <a> hi'' ! 0) CHR ''9''))
   \<and> str_split ''10:61:00 <a> hi'' = [''10:61:00'', ''<a>'', ''hi'']
   \<and> py_sequence (map py_int (str_split_sep CHR '':'' ''10:61:00'')) = Inr [10, 61, 0]
   \<and> 59 < arg_or_zero [10, 61, 0] 1
   \<and> str_strip ''10:61:00 <a> hi'' = ''10:61:00 <a> hi''
   \<and> bulk_lines main_init [] = Inr main_init
   \<and> parse (Text ''10:61:00 <a> hi'') = Inl ValueError
   \<and> one_line main_init (Text ''10:61:00 <a> hi'') 1 = Inl ValueError
   \<and> main_run (\<lambda>_. None) [(Text ''10:61:00 <a> hi'', 1), (Text ''10:00:00 * a b'', 1)]
       = Inl ValueError
   \<and> str_split ''2147483648:0:0:0:0:0 * a b'' = [''2147483648:0:0:0:0:0'', ''*'', ''a'', ''b'']
   \<and> py_sequence (map py_int (str_split_sep CHR '':'' ''2147483648:0:0:0:0:0''))
       = Inr [2147483648, 0, 0, 0, 0, 0]
   \<and> parse (Text ''2147483648:0:0:0:0:0 * a b'') = Inl OverflowError
   \<and> str_split ''1x:00:00 <a> hi'' = [''1x:00:00'', ''<a>'', ''hi'']
   \<and> py_int ''1x'' = Inl ValueError
   \<and> parse (Text ''1x:00:00 <a> hi'') = Inl ValueError"
proof -
  let ?line = "''10:61:00 <a> hi''"
  have guard: "\<not> (length ?line < 7 \<or> \<not> (char_le CHR ''0'' (?line ! 0) \<and> char_le (?line ! 0) CHR ''9''))"
    by code_simp
  have tokens: "str_split ?line = ''10:61:00'' # [''<a>'', ''hi'']"
    by code_simp
  have ints: "py_sequence (map py_int (str_split_sep CHR '':'' ''10:61:00'')) = Inr [10, 61, 0]"
    by code_simp
  have range: "59 < arg_or_zero [10, 61, 0] 1"
    by code_simp
  have strip: "str_strip ?line = ?line"
    by code_simp
  have before: "bulk_lines main_init [] = Inr main_init"
    by simp
  have fit: "list_all c_int_ok (take 4 [10, 61, 0])"
    by code_simp
  from ints range
  have bad: "(\<exists>piece \<in> set (str_split_sep CHR '':'' ''10:61:00''). \<exists>e. py_int piece = Inl e)
            \<or> (\<exists>args. py_sequence (map py_int (str_split_sep CHR '':'' ''10:61:00'')) = Inr args
                  \<and> (arg_or_zero args 0 < 0 \<or> 23 < arg_or_zero args 0
                     \<or> arg_or_zero args 1 < 0 \<or> 59 < arg_or_zero args 1
                     \<or> arg_or_zero args 2 < 0 \<or> 59 < arg_or_zero args 2))"
    by blast
  from bad_timestamp_raises [OF guard tokens bad, of main_init 1 ?line "[]"
      "[(Text ''10:00:00 * a b'', 1)]" "\<lambda>_. None"]
    strip before ints fit
  have first: "parse (Text ?line) = Inl ValueError
          \<and> one_line main_init (Text ?line) 1 = Inl ValueError
          \<and> main_run (\<lambda>_. None) [(Text ?line, 1), (Text ''10:00:00 * a b'', 1)] = Inl ValueError"
    by auto
  let ?big = "''2147483648:0:0:0:0:0 * a b''"
  have guard2: "\<not> (length ?big < 7 \<or> \<not> (char_le CHR ''0'' (?big ! 0) \<and> char_le (?big ! 0) CHR ''9''))"
    by code_simp
  have tokens2: "str_split ?big = ''2147483648:0:0:0:0:0'' # [''*'', ''a'', ''b'']"
    by code_simp
  have ints2: "py_sequence (map py_int (str_split_sep CHR '':'' ''2147483648:0:0:0:0:0''))
                 = Inr [2147483648, 0, 0, 0, 0, 0]"
    by code_simp
  have range2: "23 < arg_or_zero [2147483648, 0, 0, 0, 0, 0] 0"
    by code_simp
  have fit2: "\<not> list_all c_int_ok (take 4 [2147483648, 0, 0, 0, 0, 0])"
    by code_simp
  from ints2 range2
  have bad2: "(\<exists>piece \<in> set (str_split_sep CHR '':'' ''2147483648:0:0:0:0:0'').
                 \<exists>e. py_int piece = Inl e)
            \<or> (\<exists>args. py_sequence (map py_int (str_split_sep CHR '':'' ''2147483648:0:0:0:0:0''))
                        = Inr args
                  \<and> (arg_or_zero args 0 < 0 \<or> 23 < arg_or_zero args 0
                     \<or> arg_or_zero args 1 < 0 \<or> 59 < arg_or_zero args 1
                     \<or> arg_or_zero args 2 < 0 \<or> 59 < arg_or_zero args 2))"
    by blast
  from bad_timestamp_raises [OF guard2 tokens2 bad2, of main_init 1] ints2 fit2
  have second: "parse (Text ?big) = Inl OverflowError"
    by auto
  let ?word = "''1x:00:00 <a> hi''"
  have guard3: "\<not> (length ?word < 7 \<or> \<not> (char_le CHR ''0'' (?word ! 0) \<and> char_le (?word ! 0) CHR ''9''))"
    by code_simp
  have tokens3: "str_split ?word = ''1x:00:00'' # [''<a>'', ''hi'']"
    by code_simp
  have int3: "py_int ''1x'' = Inl ValueError"
    by code_simp
  have pieces3: "''1x'' \<in> set (str_split_sep CHR '':'' ''1x:00:00'')"
    by code_simp
  from int3 pieces3
  have fails3: "\<exists>piece \<in> set (str_split_sep CHR '':'' ''1x:00:00''). \<exists>e. py_int piece = Inl e"
    by blast
  then have bad3: "(\<exists>piece \<in> set (str_split_sep CHR '':'' ''1x:00:00''). \<exists>e. py_int piece = Inl e)
            \<or> (\<exists>args. py_sequence (map py_int (str_split_sep CHR '':'' ''1x:00:00'')) = Inr args
                  \<and> (arg_or_zero args 0 < 0 \<or> 23 < arg_or_zero args 0
                     \<or> arg_or_zero args 1 < 0 \<or> 59 < arg_or_zero args 1
                     \<or> arg_or_zero args 2 < 0 \<or> 59 < arg_or_zero args 2))"
    by blast
  from bad_timestamp_raises [OF guard3 tokens3 bad3, of main_init 1] fails3
  have third: "parse (Text ?word) = Inl ValueError"
    by auto
  from guard tokens ints range strip before first tokens2 ints2 second tokens3 int3 third
  show ?thesis
    by simp
qed

section \<open>The end-to-end scenario\<close>

text \<open>
  The two shapes of an ordinary message shown in the comment of lines 99-100, with an ASCII
  body. With a space after \<^verbatim>\<open><\<close> the author is the nick; without one, the nick is part
  of the second token and the first word of the body is returned as the author.
\<close>

lemma parse_documented_shapes:
  "parse (Text ''16:37:03 < _dopamine> ukr.'')
     = Inr (Some \<lparr>time = \<lparr>hour = 16, minute = 37, second = 3, microsecond = 0\<rparr>,
                  username = ''_dopamine'', msg_text = ''ukr.'', line_type = REGULAR\<rparr>)
   \<and> parse (Text ''16:39:11 <@Kobold84> Ukr.'')
     = Inr (Some \<lparr>time = \<lparr>hour = 16, minute = 39, second = 11, microsecond = 0\<rparr>,
                  username = ''Ukr.'', msg_text = [], line_type = REGULAR\<rparr>)"
  by code_simp

text \<open>
  Claim C1, evaluated on the code for every outcome of the draws. The three lines are
  processed without an exception. The action count of nick1 (1), the mode-change count of
  nick2 (1), the histogram (2 at hour 10, 0 at hour 11) and the empty list of top URLs are as
  the claim says. The message, question and exclamation counts of nick1 are not: for the
  line \<^verbatim>\<open>10:00:01 <nick1> hello? world!\<close> line 105 takes the author from the third
  token, \<^verbatim>\<open>hello?\<close>, and the body from the fourth on, \<^verbatim>\<open>world!\<close>. So nick1 has message
  count 1 where the claim says 2, question count 0 where it says 1 and exclamation count 0
  where it says 1, and an author \<^verbatim>\<open>hello?\<close> has one message and one exclamation.
\<close>

theorem end_to_end_scenario_run:
  "\<exists>s. bulk_lines main_init
          [(Text ''10:00:01 <nick1> hello? world!'', r1), (Text ''10:15:00 * nick1 waves'', r2),
           (Text ''11:00:00 -!- mode/#c [+o nick2] by Bot'', r3)] = Inr s
      \<and> user_messages s = [(''hello?'', 1), (''nick1'', 1)]
      \<and> user_question s = []
      \<and> user_exclamation s = [(''hello?'', 1)]
      \<and> user_actions s = [(''nick1'', 1)]
      \<and> user_givemodes s = [(''nick2'', 1)]
      \<and> counter_get (user_messages s) ''nick1'' = 1
      \<and> counter_get (user_question s) ''nick1'' = 0
      \<and> counter_get (user_exclamation s) ''nick1'' = 0
      \<and> counter_get (user_actions s) ''nick1'' = 1
      \<and> counter_get (user_givemodes s) ''nick2'' = 1
      \<and> activity_graph s ! 10 = 2
      \<and> activity_graph s ! 11 = 0
      \<and> top10_urls s = []"
proof -
  let ?l1 = "Text ''10:00:01 <nick1> hello? world!''"
  let ?l2 = "Text ''10:15:00 * nick1 waves''"
  let ?l3 = "Text ''11:00:00 -!- mode/#c [+o nick2] by Bot''"
  let ?m1 = "\<lparr>time = \<lparr>hour = 10, minute = 0, second = 1, microsecond = 0\<rparr>,
              username = ''hello?'', msg_text = ''world!'', line_type = REGULAR\<rparr>"
  let ?m2 = "\<lparr>time = \<lparr>hour = 10, minute = 15, second = 0, microsecond = 0\<rparr>,
              username = ''nick1'', msg_text = ''waves'', line_type = ACTION\<rparr>"
  let ?m3 = "\<lparr>time = \<lparr>hour = 11, minute = 0, second = 0, microsecond = 0\<rparr>,
              username = ''nick2'', msg_text = [], line_type = MODE_CHANGE\<rparr>"
  let ?g1 = "[0, 0, 0, 0, 0, 0, 0, 0, 0, 0, 1, 0, 0, 0, 0, 0, 0, 0, 0, 0, 0, 0, 0, 0 :: int]"
  let ?g2 = "[0, 0, 0, 0, 0, 0, 0, 0, 0, 0, 2, 0, 0, 0, 0, 0, 0, 0, 0, 0, 0, 0, 0, 0 :: int]"
  let ?c1 = "consider_kv sampler_init ''hello?'' ''world!'' r1"
  let ?c2 = "consider_kv ?c1 ''nick1'' ''waves'' r2"
  define s1 where "s1 = main_init\<lparr>user_messages := [(''hello?'', 1)],
      user_exclamation := [(''hello?'', 1)], cache_user_messages := ?c1, activity_graph := ?g1\<rparr>"
  define s2 where "s2 = s1\<lparr>user_messages := [(''hello?'', 1), (''nick1'', 1)],
      user_actions := [(''nick1'', 1)], cache_user_messages := ?c2, activity_graph := ?g2\<rparr>"
  define s3 where "s3 = s2\<lparr>user_givemodes := [(''nick2'', 1)]\<rparr>"
  have strip: "line_strip ?l1 = ?l1" "line_strip ?l2 = ?l2" "line_strip ?l3 = ?l3"
    by code_simp+
  have p1: "parse ?l1 = Inr (Some ?m1)" by code_simp
  have p2: "parse ?l2 = Inr (Some ?m2)" by code_simp
  have p3: "parse ?l3 = Inr (Some ?m3)" by code_simp
  have u1: "parse_urls ?m1 = []" by code_simp
  have u2: "parse_urls ?m2 = []" by code_simp
  have g1: "list_incr (replicate 24 0) 10 = Inr ?g1" by code_simp
  have g2: "list_incr ?g1 10 = Inr ?g2" by code_simp
  have o1: "one_line main_init ?l1 r1 = Inr s1"
    by (simp add: one_line_def p1 record_message_def u1 g1 main_init_def s1_def
        counter_incr_def counter_get_def Let_def)
  have o2: "one_line s1 ?l2 r2 = Inr s2"
    by (simp add: one_line_def p2 record_message_def u2 g2 main_init_def s1_def s2_def
        counter_incr_def counter_get_def Let_def)
  have o3: "one_line s2 ?l3 r3 = Inr s3"
    by (simp add: one_line_def p3 record_message_def main_init_def s1_def s2_def s3_def
        counter_incr_def counter_get_def Let_def)
  have run: "bulk_lines main_init [(?l1, r1), (?l2, r2), (?l3, r3)] = Inr s3"
    by (simp add: strip o1 o2 o3)
  have urls: "top10_urls s3 = []"
    by (simp add: top10_urls_def most_common_n_def most_common_def main_init_def
        s1_def s2_def s3_def)
  have vals: "user_messages s3 = [(''hello?'', 1), (''nick1'', 1)]
      \<and> user_question s3 = []
      \<and> user_exclamation s3 = [(''hello?'', 1)]
      \<and> user_actions s3 = [(''nick1'', 1)]
      \<and> user_givemodes s3 = [(''nick2'', 1)]
      \<and> activity_graph s3 ! 10 = 2
      \<and> activity_graph s3 ! 11 = 0"
    by (simp add: main_init_def s1_def s2_def s3_def)
  then have gets: "counter_get (user_messages s3) ''nick1'' = 1
      \<and> counter_get (user_question s3) ''nick1'' = 0
      \<and> counter_get (user_exclamation s3) ''nick1'' = 0
      \<and> counter_get (user_actions s3) ''nick1'' = 1
      \<and> counter_get (user_givemodes s3) ''nick2'' = 1"
    by (simp add: counter_get_def)
  from run urls vals gets show ?thesis
    by blast
qed

section \<open>What one message changes\<close>

lemma count_urls_frame:
  "user_messages (count_urls self u urls) = user_messages self
   \<and> cache_user_messages (count_urls self u urls) = cache_user_messages self
   \<and> activity_graph (count_urls self u urls) = activity_graph self"
  by (induction urls arbitrary: self) simp_all

lemma record_message_mode_change:
  "line_type m = MODE_CHANGE \<Longrightarrow>
   record_message self m r
     = Inr (self\<lparr>user_givemodes := counter_incr (user_givemodes self) (username m)\<rparr>)"
  by (simp add: record_message_def)

lemma record_message_counted:
  assumes "line_type m \<noteq> MODE_CHANGE" and "record_message self m r = Inr s'"
  shows "list_incr (activity_graph self) (hour (time m)) = Inr (activity_graph s')
       \<and> user_messages s' = counter_incr (user_messages self) (username m)
       \<and> cache_user_messages s'
           = consider_kv (cache_user_messages self) (username m) (msg_text m) r"
proof -
  from assms obtain graph where
    g: "list_incr (activity_graph self) (hour (time m)) = Inr graph"
    by (cases "list_incr (activity_graph self) (hour (time m))")
       (auto simp: record_message_def Let_def split: message_type.splits)
  with assms show ?thesis
    by (cases "line_type m")
       (auto simp: record_message_def Let_def count_urls_frame split: if_splits)
qed

lemma datetime_time_hour:
  "datetime_time args = Inr t \<Longrightarrow> 0 \<le> hour t \<and> hour t < 24"
  by (auto simp: datetime_time_def Let_def split: if_splits)

lemma parse_hour:
  assumes "parse line = Inr (Some m)"
  shows "0 \<le> hour (time m) \<and> hour (time m) < 24"
proof -
  from assms obtain token0 where "parse_time token0 = Inr (time m)"
    by (cases line) (auto simp: parse_def Let_def py_bind_eq_Inr split: if_splits)
  then show ?thesis
    by (auto simp: parse_time_def py_bind_eq_Inr dest: datetime_time_hour)
qed

lemma int_cast_loop_same:
  "int_cast_loop graph positions = Inr graph' \<Longrightarrow> graph' = graph"
  by (induction positions arbitrary: graph) (auto simp: int_cast_def split: if_splits)

lemma graph_percentage_same:
  "graph_percentage graph = Inr graph' \<Longrightarrow> graph' = graph"
  by (auto simp: graph_percentage_def Let_def split: if_splits dest: int_cast_loop_same)

lemma save_page_graph:
  assumes "save_page uid self = Inr (self', tpl, js)"
  shows "graph_percentage (activity_graph self) = Inr (activity_graph self)
       \<and> activity_graph self' = activity_graph self
       \<and> tpl_activity_graph tpl = activity_graph self
       \<and> json_activity_graph js = activity_graph self"
proof -
  from assms obtain most_active graph where
    "graph_percentage (activity_graph self) = Inr graph"
    and out: "activity_graph self' = graph \<and> tpl_activity_graph tpl = graph
              \<and> json_activity_graph js = graph"
    by (auto simp: save_page_def Let_def py_bind_eq_Inr)
  moreover from this have "graph = activity_graph self"
    by (simp add: graph_percentage_same)
  ultimately show ?thesis by simp
qed

section \<open>The hourly histogram\<close>

lemma list_incr_nth:
  assumes "list_incr xs i = Inr ys" and "0 \<le> i" and "i < int (length xs)"
  shows "length ys = length xs
       \<and> (\<forall>h < length xs. ys ! h = xs ! h + (if int h = i then 1 else 0))"
proof -
  from assms have ys: "ys = xs[nat i := xs ! nat i + 1]"
    by (auto simp: list_incr_def Let_def split: if_splits)
  have "ys ! h = xs ! h + (if int h = i then 1 else 0)" if "h < length xs" for h
    using that assms(2) by (auto simp: ys nth_list_update)
  with ys show ?thesis by simp
qed

lemma one_line_graph:
  assumes "one_line self line r = Inr s'" and "length (activity_graph self) = 24"
  shows "length (activity_graph s') = 24
       \<and> (\<forall>h < 24. activity_graph s' ! h
                      = activity_graph self ! h + (if counted_at h line then 1 else 0))"
proof (cases "parse line")
  case (Inl e)
  with assms show ?thesis by (simp add: one_line_def)
next
  case (Inr message)
  show ?thesis
  proof (cases message)
    case None
    with Inr assms show ?thesis
      by (auto simp: one_line_def counted_at_def)
  next
    case (Some m)
    with Inr assms have rec: "record_message self m r = Inr s'"
      by (simp add: one_line_def)
    show ?thesis
    proof (cases "line_type m = MODE_CHANGE")
      case True
      with rec Inr Some assms show ?thesis
        by (auto simp: record_message_mode_change counted_at_def)
    next
      case False
      from record_message_counted [OF False rec]
      have g: "list_incr (activity_graph self) (hour (time m)) = Inr (activity_graph s')"
        by simp
      from Inr Some have range: "0 \<le> hour (time m)" "hour (time m) < 24"
        using parse_hour [of line m] by simp_all
      from list_incr_nth [OF g range(1)] range(2) assms(2) False Inr Some show ?thesis
        by (simp add: counted_at_def eq_commute)
    qed
  qed
qed

lemma bulk_lines_graph:
  "bulk_lines self lines = Inr s' \<Longrightarrow> length (activity_graph self) = 24 \<Longrightarrow>
   length (activity_graph s') = 24
   \<and> (\<forall>h < 24. activity_graph s' ! h = activity_graph self ! h + hour_count h lines)"
proof (induction lines arbitrary: self)
  case Nil
  then show ?case by (simp add: hour_count_def)
next
  case (Cons item lines)
  obtain raw r where item: "item = (raw, r)" by (cases item)
  from Cons.prems(1) item obtain s1 where
    one: "one_line self (line_strip raw) r = Inr s1" and rest: "bulk_lines s1 lines = Inr s'"
    by (auto simp: py_bind_eq_Inr)
  from one_line_graph [OF one Cons.prems(2)]
  have len1: "length (activity_graph s1) = 24"
    and step: "\<forall>h < 24. activity_graph s1 ! h
                 = activity_graph self ! h + (if counted_at h (line_strip raw) then 1 else 0)"
    by simp_all
  from Cons.IH [OF rest len1]
  have len: "length (activity_graph s') = 24"
    and ih: "\<forall>h < 24. activity_graph s' ! h = activity_graph s1 ! h + hour_count h lines"
    by simp_all
  have "activity_graph s' ! h = activity_graph self ! h + hour_count h (item # lines)"
    if "h < 24" for h
    using that step ih item by (simp add: hour_count_def)
  with len show ?case by simp
qed

text \<open>
  Claim C3. When \<^verbatim>\<open>main\<close> gets as far as assembling the report, the histogram handed to
  the template and the one written to the JSON file are both the 24-entry list that
  \<^verbatim>\<open>bulk_lines\<close> accumulated, whose entry \<open>h\<close> is the number of lines read that parsed to an
  ordinary or action message of hour \<open>h\<close>. The percentage computation of lines 311-317
  returns that list as it was, and \<^verbatim>\<open>save_page\<close> leaves it in the state unchanged; the
  quotient it computes reaches no output.
\<close>

theorem histogram_output_is_raw_count:
  assumes "main_run uid lines = Inr (self', tpl, js)"
  shows "\<exists>s. bulk_lines main_init lines = Inr s
           \<and> graph_percentage (activity_graph s) = Inr (activity_graph s)
           \<and> activity_graph self' = activity_graph s
           \<and> tpl_activity_graph tpl = activity_graph s
           \<and> json_activity_graph js = activity_graph s
           \<and> length (activity_graph s) = 24
           \<and> (\<forall>h < 24. activity_graph s ! h = hour_count h lines)"
proof -
  from assms obtain s where
    run: "bulk_lines main_init lines = Inr s" and page: "save_page uid s = Inr (self', tpl, js)"
    by (auto simp: main_run_def py_bind_eq_Inr)
  have init: "length (activity_graph main_init) = 24"
    by (simp add: main_init_def)
  from bulk_lines_graph [OF run init]
  have "length (activity_graph s) = 24 \<and> (\<forall>h < 24. activity_graph s ! h = hour_count h lines)"
    by (simp add: main_init_def)
  with run save_page_graph [OF page] show ?thesis
    by blast
qed

theorem histogram_output_is_raw_count_witness:
  "\<exists>self' tpl js.
     main_run (\<lambda>_. None) [(Text ''10:15:00 * nick1 waves'', 1), (Text ''10:16'', 1)] = Inr (self', tpl, js)
     \<and> json_activity_graph js
         = [0, 0, 0, 0, 0, 0, 0, 0, 0, 0, 1, 0, 0, 0, 0, 0, 0, 0, 0, 0, 0, 0, 0, 0]
     \<and> tpl_activity_graph tpl = json_activity_graph js
     \<and> hour_count 10 [(Text ''10:15:00 * nick1 waves'', 1), (Text ''10:16'', 1)] = 1"
proof -
  let ?l1 = "Text ''10:15:00 * nick1 waves''"
  let ?m1 = "\<lparr>time = \<lparr>hour = 10, minute = 15, second = 0, microsecond = 0\<rparr>,
              username = ''nick1'', msg_text = ''waves'', line_type = ACTION\<rparr>"
  let ?g1 = "[0, 0, 0, 0, 0, 0, 0, 0, 0, 0, 1, 0, 0, 0, 0, 0, 0, 0, 0, 0, 0, 0, 0, 0 :: int]"
  define s1 where "s1 = main_init\<lparr>user_messages := [(''nick1'', 1)],
      user_actions := [(''nick1'', 1)],
      cache_user_messages := consider_kv sampler_init ''nick1'' ''waves'' 1,
      activity_graph := ?g1\<rparr>"
  define s2 where "s2 = s1\<lparr>stderr := [Skipped_line (Text ''10:16'')]\<rparr>"
  have strip: "line_strip ?l1 = ?l1" "line_strip (Text ''10:16'') = Text ''10:16''"
    by code_simp+
  have p1: "parse ?l1 = Inr (Some ?m1)" by code_simp
  have p2: "parse (Text ''10:16'') = Inr None" by code_simp
  have u1: "parse_urls ?m1 = []" by code_simp
  have g1: "list_incr (replicate 24 0) 10 = Inr ?g1" by code_simp
  have o1: "one_line main_init ?l1 1 = Inr s1"
    by (simp add: one_line_def p1 record_message_def u1 g1 main_init_def s1_def
        counter_incr_def counter_get_def Let_def)
  have o2: "one_line s1 (Text ''10:16'') 1 = Inr s2"
    by (simp add: one_line_def p2 s1_def s2_def main_init_def)
  have run: "bulk_lines main_init [(?l1, 1), (Text ''10:16'', 1)] = Inr s2"
    by (simp add: strip o1 o2)
  have graph: "activity_graph s2 = ?g1"
    by (simp add: s1_def s2_def)
  have quote: "get (cache_user_messages s2) ''nick1'' = Some ''waves''"
    by (simp add: s1_def s2_def get_consider_fresh get_sampler_init)
  have top: "most_common (user_messages s2) = [(''nick1'', 1)]"
    by (simp add: s1_def s2_def most_common_def)
  have pct: "graph_percentage ?g1 = Inr ?g1"
    by code_simp
  have "\<exists>out. save_page (\<lambda>_. None) s2 = Inr out"
    by (simp add: save_page_def Let_def top quote graph pct)
  with run obtain self' tpl js where
    main: "main_run (\<lambda>_. None) [(?l1, 1), (Text ''10:16'', 1)] = Inr (self', tpl, js)"
    by (auto simp: main_run_def)
  from histogram_output_is_raw_count [OF main] obtain s where
    s: "bulk_lines main_init [(?l1, 1), (Text ''10:16'', 1)] = Inr s"
    and out: "tpl_activity_graph tpl = activity_graph s" "json_activity_graph js = activity_graph s"
    and count: "\<forall>h < 24. activity_graph s ! h = hour_count h [(?l1, 1), (Text ''10:16'', 1)]"
    by blast
  from s run have same: "s = s2" by simp
  from count have "activity_graph s ! 10 = hour_count 10 [(?l1, 1), (Text ''10:16'', 1)]"
    by simp
  with same graph have "hour_count 10 [(?l1, 1), (Text ''10:16'', 1)] = 1"
    by simp
  with main out same graph show ?thesis by auto
qed

section \<open>Every counted author has a quote\<close>

lemma get_consider_same: "get (consider_kv smp k v r) k \<noteq> None"
  by (simp add: consider_kv_def get_def Let_def)

lemma counter_consider:
  "counter (consider_kv smp k v r) = (counter smp)(k := counter smp k + 1)"
  by (simp add: consider_kv_def Let_def)

lemma counter_get_positive_key:
  "0 < counter_get c k \<Longrightarrow> k \<in> fst ` set c"
  by (auto simp: counter_get_def map_of_eq_None_iff split: option.splits dest: map_of_SomeD
      intro: rev_image_eqI)

text \<open>
  The invariant of a run: the sampler has counted, for every author, as many observations
  as \<^verbatim>\<open>user_messages\<close> has messages, and it holds a quote for every key of
  \<^verbatim>\<open>user_messages\<close>.
\<close>

lemma one_line_quotes:
  assumes step: "one_line self line r = Inr s'"
    and counts: "counter (cache_user_messages self) = counter_get (user_messages self)"
    and quotes: "\<forall>u \<in> fst ` set (user_messages self). get (cache_user_messages self) u \<noteq> None"
  shows "counter (cache_user_messages s') = counter_get (user_messages s')
       \<and> (\<forall>u \<in> fst ` set (user_messages s'). get (cache_user_messages s') u \<noteq> None)"
proof (cases "parse line")
  case (Inl e)
  with step show ?thesis by (simp add: one_line_def)
next
  case (Inr message)
  show ?thesis
  proof (cases message)
    case None
    with Inr step have "s' = self\<lparr>stderr := stderr self @ [Skipped_line line]\<rparr>"
      by (simp add: one_line_def)
    with counts quotes show ?thesis
      by simp
  next
    case (Some m)
    with Inr step have rec: "record_message self m r = Inr s'"
      by (simp add: one_line_def)
    show ?thesis
    proof (cases "line_type m = MODE_CHANGE")
      case True
      with rec have "s' = self\<lparr>user_givemodes :=
                               counter_incr (user_givemodes self) (username m)\<rparr>"
        by (simp add: record_message_mode_change)
      with counts quotes show ?thesis
        by simp
    next
      case False
      from record_message_counted [OF False rec]
      have um: "user_messages s' = counter_incr (user_messages self) (username m)"
        and cm: "cache_user_messages s'
                   = consider_kv (cache_user_messages self) (username m) (msg_text m) r"
        by simp_all
      have "counter (cache_user_messages s') = counter_get (user_messages s')"
        by (simp add: um cm counter_consider counter_get_incr_all counts)
      moreover have "get (cache_user_messages s') u \<noteq> None"
        if "u \<in> fst ` set (user_messages s')" for u
      proof (cases "u = username m")
        case True
        then show ?thesis by (simp add: cm get_consider_same)
      next
        case False
        with that have "u \<in> fst ` set (user_messages self)"
          by (simp add: um keys_counter_incr)
        with quotes have "get (cache_user_messages self) u \<noteq> None"
          by blast
        with False show ?thesis
          by (simp add: cm get_consider_other)
      qed
      ultimately show ?thesis by blast
    qed
  qed
qed

lemma bulk_lines_quotes:
  "bulk_lines self lines = Inr s' \<Longrightarrow>
   counter (cache_user_messages self) = counter_get (user_messages self) \<Longrightarrow>
   \<forall>u \<in> fst ` set (user_messages self). get (cache_user_messages self) u \<noteq> None \<Longrightarrow>
   counter (cache_user_messages s') = counter_get (user_messages s')
   \<and> (\<forall>u \<in> fst ` set (user_messages s'). get (cache_user_messages s') u \<noteq> None)"
proof (induction lines arbitrary: self)
  case Nil
  then show ?case by simp
next
  case (Cons item lines)
  obtain raw r where item: "item = (raw, r)" by (cases item)
  from Cons.prems(1) item obtain s1 where
    one: "one_line self (line_strip raw) r = Inr s1" and rest: "bulk_lines s1 lines = Inr s'"
    by (auto simp: py_bind_eq_Inr)
  from one_line_quotes [OF one Cons.prems(2) Cons.prems(3)]
  have "counter (cache_user_messages s1) = counter_get (user_messages s1)"
    and "\<forall>u \<in> fst ` set (user_messages s1). get (cache_user_messages s1) u \<noteq> None"
    by simp_all
  from Cons.IH [OF rest this] show ?case .
qed

lemma most_active_loop_returns:
  "\<forall>item \<in> set items. get smp (fst item) \<noteq> None \<Longrightarrow>
   \<exists>users. most_active_loop uid smp items = Inr users"
proof (induction items)
  case Nil
  show ?case by simp
next
  case (Cons item items)
  obtain name n where item: "item = (name, n)" by (cases item)
  from Cons.prems item obtain q where q: "get smp name = Some q" by auto
  from Cons.prems have "\<forall>item \<in> set items. get smp (fst item) \<noteq> None" by simp
  from Cons.IH [OF this] obtain users where "most_active_loop uid smp items = Inr users"
    by blast
  with q item show ?case by simp
qed

lemma int_cast_loop_error: "int_cast_loop graph positions = Inl e \<Longrightarrow> e = IndexError"
  by (induction positions arbitrary: graph) (auto split: if_splits)

lemma graph_percentage_error:
  "graph_percentage graph = Inl e \<Longrightarrow> e = OverflowError \<or> e = IndexError"
  by (auto simp: graph_percentage_def Let_def split: if_splits dest: int_cast_loop_error)

text \<open>
  Claim C10. After any number of lines read without an exception (so at every point of a
  run between two lines): for every author whose message counter is positive the sampler
  has counted that many observations, at least one, and holds a quote. So \<^verbatim>\<open>get\<close> returns
  a quote for each of the at most 25 authors that \<^verbatim>\<open>save_page\<close> takes from
  \<^verbatim>\<open>most_common\<close>, the loop of lines 296-309 completes, and \<^verbatim>\<open>save_page\<close> does not raise
  the \<^verbatim>\<open>AttributeError\<close> of \<^verbatim>\<open>html.escape(None)\<close>.
\<close>

theorem top_authors_have_quotes:
  assumes "bulk_lines main_init lines = Inr s"
  shows "(\<forall>u. 0 < counter_get (user_messages s) u \<longrightarrow>
              counter (cache_user_messages s) u = counter_get (user_messages s) u
            \<and> get (cache_user_messages s) u \<noteq> None)
       \<and> (\<forall>item \<in> set (take (min 25 (length (most_common (user_messages s))))
                            (most_common (user_messages s))).
              get (cache_user_messages s) (fst item) \<noteq> None)
       \<and> (\<exists>users. most_active_loop uid (cache_user_messages s)
                     (take (min 25 (length (most_common (user_messages s))))
                           (most_common (user_messages s))) = Inr users)
       \<and> save_page uid s \<noteq> Inl AttributeError"
proof -
  let ?top25 = "take (min 25 (length (most_common (user_messages s))))
                     (most_common (user_messages s))"
  have "counter (cache_user_messages main_init) = counter_get (user_messages main_init)"
    by (rule ext) (simp add: main_init_def sampler_init_def counter_get_def)
  moreover have "\<forall>u \<in> fst ` set (user_messages main_init).
                   get (cache_user_messages main_init) u \<noteq> None"
    by (simp add: main_init_def)
  ultimately have counts: "counter (cache_user_messages s) = counter_get (user_messages s)"
    and quotes: "\<forall>u \<in> fst ` set (user_messages s). get (cache_user_messages s) u \<noteq> None"
    using bulk_lines_quotes [OF assms] by simp_all
  have a: "\<forall>u. 0 < counter_get (user_messages s) u \<longrightarrow>
              counter (cache_user_messages s) u = counter_get (user_messages s) u
            \<and> get (cache_user_messages s) u \<noteq> None"
    using counts quotes counter_get_positive_key by metis
  have "item \<in> set (user_messages s)" if "item \<in> set ?top25" for item
    using that by (auto simp: most_common_def dest: in_set_takeD)
  with quotes have b: "\<forall>item \<in> set ?top25. get (cache_user_messages s) (fst item) \<noteq> None"
    by auto
  from most_active_loop_returns [OF b] obtain users where
    c: "most_active_loop uid (cache_user_messages s) ?top25 = Inr users"
    by blast
  have d: "save_page uid s \<noteq> Inl AttributeError"
  proof (cases "graph_percentage (activity_graph s)")
    case (Inl e)
    with graph_percentage_error [OF Inl] c show ?thesis
      by (auto simp: save_page_def Let_def)
  next
    case (Inr graph)
    with c show ?thesis
      by (simp add: save_page_def Let_def)
  qed
  from a b c d show ?thesis by blast
qed

theorem top_authors_have_quotes_witness:
  "\<exists>s. bulk_lines main_init [(Text ''10:15:00 * nick1 waves'', 1), (Text ''10:16:00 < nick1> hi'', 2)] = Inr s
      \<and> 0 < counter_get (user_messages s) ''nick1''
      \<and> counter (cache_user_messages s) ''nick1'' = counter_get (user_messages s) ''nick1''
      \<and> (''nick1'', 2) \<in> set (take (min 25 (length (most_common (user_messages s))))
                                    (most_common (user_messages s)))
      \<and> get (cache_user_messages s) ''nick1'' \<noteq> None
      \<and> save_page (\<lambda>_. None) s \<noteq> Inl AttributeError"
proof -
  let ?l1 = "Text ''10:15:00 * nick1 waves''"
  let ?l2 = "Text ''10:16:00 < nick1> hi''"
  let ?m1 = "\<lparr>time = \<lparr>hour = 10, minute = 15, second = 0, microsecond = 0\<rparr>,
              username = ''nick1'', msg_text = ''waves'', line_type = ACTION\<rparr>"
  let ?m2 = "\<lparr>time = \<lparr>hour = 10, minute = 16, second = 0, microsecond = 0\<rparr>,
              username = ''nick1'', msg_text = ''hi'', line_type = REGULAR\<rparr>"
  let ?g1 = "[0, 0, 0, 0, 0, 0, 0, 0, 0, 0, 1, 0, 0, 0, 0, 0, 0, 0, 0, 0, 0, 0, 0, 0 :: int]"
  let ?g2 = "[0, 0, 0, 0, 0, 0, 0, 0, 0, 0, 2, 0, 0, 0, 0, 0, 0, 0, 0, 0, 0, 0, 0, 0 :: int]"
  let ?c1 = "consider_kv sampler_init ''nick1'' ''waves'' 1"
  define s1 where "s1 = main_init\<lparr>user_messages := [(''nick1'', 1)],
      user_actions := [(''nick1'', 1)], cache_user_messages := ?c1, activity_graph := ?g1\<rparr>"
  define s2 where "s2 = s1\<lparr>user_messages := [(''nick1'', 2)],
      cache_user_messages := consider_kv ?c1 ''nick1'' ''hi'' 2, activity_graph := ?g2\<rparr>"
  have strip: "line_strip ?l1 = ?l1" "line_strip ?l2 = ?l2"
    by code_simp+
  have p1: "parse ?l1 = Inr (Some ?m1)" by code_simp
  have p2: "parse ?l2 = Inr (Some ?m2)" by code_simp
  have u1: "parse_urls ?m1 = []" by code_simp
  have u2: "parse_urls ?m2 = []" by code_simp
  have g1: "list_incr (replicate 24 0) 10 = Inr ?g1" by code_simp
  have g2: "list_incr ?g1 10 = Inr ?g2" by code_simp
  have o1: "one_line main_init ?l1 1 = Inr s1"
    by (simp add: one_line_def p1 record_message_def u1 g1 main_init_def s1_def
        counter_incr_def counter_get_def Let_def)
  have o2: "one_line s1 ?l2 2 = Inr s2"
    by (simp add: one_line_def p2 record_message_def u2 g2 main_init_def s1_def s2_def
        counter_incr_def counter_get_def Let_def)
  have run: "bulk_lines main_init [(?l1, 1), (?l2, 2)] = Inr s2"
    by (simp add: strip o1 o2)
  have um: "user_messages s2 = [(''nick1'', 2)]"
    by (simp add: s2_def)
  have positive: "0 < counter_get (user_messages s2) ''nick1''"
    by (simp add: um counter_get_def)
  have top: "(''nick1'', 2) \<in> set (take (min 25 (length (most_common (user_messages s2))))
                                    (most_common (user_messages s2)))"
    by (simp add: um most_common_def)
  from top_authors_have_quotes [OF run, of "\<lambda>_. None"] positive top
  have "counter (cache_user_messages s2) ''nick1'' = counter_get (user_messages s2) ''nick1''
      \<and> get (cache_user_messages s2) ''nick1'' \<noteq> None
      \<and> save_page (\<lambda>_. None) s2 \<noteq> Inl AttributeError"
    by fastforce
  with run positive top show ?thesis by blast
qed

section \<open>What URLS_PATTERN matches\<close>

lemma url_ok_classes:
  "url_ok c \<longleftrightarrow>
     in_class [Range CHR ''a'' CHR ''z'', Range CHR ''A'' CHR ''Z''] c
   \<or> in_class [Range CHR ''0'' CHR ''9''] c
   \<or> in_class url_punct c
   \<or> in_class [Single CHR ''!'', Single CHR ''*'', Single CHR ''('', Single CHR '')'',
                Single CHR '',''] c"
  by (auto simp: url_ok_def url_char_def)

lemma percent_in_url_punct: "in_class url_punct CHR ''%''"
  by (simp add: url_punct_def in_class_def char_le_def)

lemma rmatch_url_char_Nil: "rmatch url_char [] = []"
  by (simp add: url_char_def)

lemma rmatch_url_char_empty: "\<not> url_ok c \<Longrightarrow> rmatch url_char (c # t) = []"
  using percent_in_url_punct by (auto simp: url_ok_classes url_char_def)

lemma rmatch_url_char_head:
  "url_ok c \<Longrightarrow> \<exists>others. rmatch url_char (c # t) = t # others"
  using percent_in_url_punct by (auto simp: url_ok_classes url_char_def)

lemma rmatch_plus_stop:
  "t = [] \<or> \<not> url_ok (hd t) \<Longrightarrow> rmatch (Plus url_char) t = []"
  by (cases t) (simp_all add: rmatch_url_char_Nil rmatch_url_char_empty)

lemma rmatch_plus_head:
  "url_ok c \<Longrightarrow> \<exists>others. rmatch (Plus url_char) (c # t) = dropWhile url_ok t # others"
proof (induction t arbitrary: c)
  case Nil
  from rmatch_url_char_head [OF Nil, of "[]"] show ?case
    by (auto simp: rmatch_url_char_Nil)
next
  case (Cons d t)
  from rmatch_url_char_head [OF Cons.prems, of "d # t"] obtain others where
    step: "rmatch url_char (c # d # t) = (d # t) # others"
    by blast
  show ?case
  proof (cases "url_ok d")
    case True
    from Cons.IH [OF True] obtain later where
      "rmatch (Plus url_char) (d # t) = dropWhile url_ok t # later"
      by blast
    with step True show ?thesis by simp
  next
    case False
    then have "rmatch (Plus url_char) (d # t) = []"
      using rmatch_plus_stop [of "d # t"] by simp
    with step False show ?thesis by simp
  qed
qed

lemma rmatch_URLS_PATTERN_http:
  "rmatch URLS_PATTERN s \<noteq> [] \<Longrightarrow> take 4 s = ''http''"
  by (auto simp: URLS_PATTERN_def eval_nat_numeral split: if_splits)

lemma rmatch_URLS_PATTERN_head:
  assumes "url_ok c"
  shows "\<exists>others. rmatch URLS_PATTERN (''http://'' @ c # t) = dropWhile url_ok t # others"
    and "\<exists>others. rmatch URLS_PATTERN (''https://'' @ c # t) = dropWhile url_ok t # others"
  using rmatch_plus_head [OF assms, of t]
  by (auto simp: URLS_PATTERN_def in_class_def)

lemma findall_skip_all: "length s \<le> n \<Longrightarrow> findall_skip r n s = []"
  by (induction r n s rule: findall_skip.induct) simp_all


lemma findall_whole_url:
  assumes "u \<noteq> []" and "\<forall>c \<in> set u. url_ok c"
  shows "findall URLS_PATTERN (''http://'' @ u) = [''http://'' @ u]"
proof -
  from assms obtain c t where u: "u = c # t" and c: "url_ok c" and t: "\<forall>d \<in> set t. url_ok d"
    by (cases u) auto
  from t have "dropWhile url_ok t = []" by simp
  with rmatch_URLS_PATTERN_head(1) [OF c, of t] obtain others where
    m: "rmatch URLS_PATTERN (''http://'' @ c # t) = [] # others"
    by auto
  have "findall_skip URLS_PATTERN (length (''ttp://'' @ c # t)) (''ttp://'' @ c # t) = []"
    by (rule findall_skip_all) simp
  with m u show ?thesis
    by (simp add: findall_def)
qed

text \<open>
  From here on the equations of \<open>rmatch\<close> are unfolded by name: the one for \<^verbatim>\<open>+\<close> calls
  \<open>rmatch\<close> on the same pattern.
\<close>

declare rmatch.simps [simp del]




lemma url_punct_range:
  "in_class url_punct c \<longleftrightarrow> 0x24 \<le> (of_char c :: nat) \<and> (of_char c :: nat) \<le> 0x5F"
  by (auto simp: url_punct_def in_class_def char_le_def)




lemma char_code_eq: "(of_char c :: nat) = of_char d \<longleftrightarrow> c = d"
  by (rule of_char_eq_iff)

lemma url_ok_codes:
  "url_ok c \<longleftrightarrow> (of_char c :: nat) = 0x21
     \<or> (0x24 \<le> (of_char c :: nat) \<and> (of_char c :: nat) \<le> 0x5F)
     \<or> (0x61 \<le> (of_char c :: nat) \<and> (of_char c :: nat) \<le> 0x7A)"
proof -
  have bang: "(of_char c :: nat) = 0x21 \<longleftrightarrow> c = CHR ''!''"
    using char_code_eq [of c "CHR ''!''"] by simp
  show ?thesis
    unfolding bang
    by (auto simp: url_ok_classes in_class_def url_punct_def char_le_def)
qed

lemma h_is_url_ok: "url_ok CHR ''h''"
  by (simp add: url_ok_codes)

lemma findall_skip_prefix:
  "CHR ''h'' \<notin> set pre \<Longrightarrow>
   findall_skip URLS_PATTERN 0 (pre @ s) = findall_skip URLS_PATTERN 0 s"
proof (induction pre)
  case Nil
  show ?case by simp
next
  case (Cons c pre)
  have "rmatch URLS_PATTERN (c # pre @ s) = []"
  proof (rule ccontr)
    assume "rmatch URLS_PATTERN (c # pre @ s) \<noteq> []"
    then have "take 4 (c # pre @ s) = ''http''" by (rule rmatch_URLS_PATTERN_http)
    then have "c = CHR ''h''" by (simp add: eval_nat_numeral)
    with Cons.prems show False by simp
  qed
  with Cons show ?case by simp
qed

lemma findall_skip_drop:
  "n \<le> length s \<Longrightarrow> findall_skip r n s = findall_skip r 0 (drop n s)"
  by (induction r n s rule: findall_skip.induct) simp_all

lemma findall_delimited:
  assumes scheme: "scheme = ''http://'' \<or> scheme = ''https://''"
    and u: "u \<noteq> []" "\<forall>x \<in> set u. url_ok x"
    and d: "\<not> url_ok d"
  shows "findall_skip URLS_PATTERN 0 (scheme @ u @ d # post)
           = (scheme @ u) # findall_skip URLS_PATTERN 0 post"
proof -
  from u obtain c t where ct: "u = c # t" and c: "url_ok c" and t: "\<forall>x \<in> set t. url_ok x"
    by (cases u) auto
  from t d have stop: "dropWhile url_ok (t @ d # post) = d # post"
    by (simp add: dropWhile_append2)
  from scheme rmatch_URLS_PATTERN_head [OF c, of "t @ d # post"] stop obtain others where
    m: "rmatch URLS_PATTERN (scheme @ c # t @ d # post) = (d # post) # others"
    by auto
  from scheme obtain s0 ss where sc: "scheme = s0 # ss" by auto
  define rest where "rest = ss @ c # t @ d # post"
  have whole: "scheme @ u @ d # post = s0 # rest"
    by (simp add: sc ct rest_def)
  from m have m': "rmatch URLS_PATTERN (s0 # rest) = (d # post) # others"
    by (simp add: sc rest_def)
  have len: "length (s0 # rest) - length (d # post) = length (scheme @ u)"
    by (simp add: sc ct rest_def)
  have matched: "take (length (scheme @ u)) (s0 # rest) = scheme @ u"
    by (simp add: sc ct rest_def)
  have "findall_skip URLS_PATTERN (length (scheme @ u) - 1) rest
          = findall_skip URLS_PATTERN 0 (drop (length (scheme @ u) - 1) rest)"
    by (rule findall_skip_drop) (simp add: sc ct rest_def)
  also have "drop (length (scheme @ u) - 1) rest = [d] @ post"
    by (simp add: sc ct rest_def)
  also from d h_is_url_ok
  have "findall_skip URLS_PATTERN 0 ([d] @ post) = findall_skip URLS_PATTERN 0 post"
    by (intro findall_skip_prefix) auto
  finally have later: "findall_skip URLS_PATTERN (length (scheme @ u) - 1) rest
          = findall_skip URLS_PATTERN 0 post" .
  have "findall_skip URLS_PATTERN 0 (s0 # rest)
          = (scheme @ u) # findall_skip URLS_PATTERN 0 post"
    by (simp only: findall_skip.simps m' list.case Let_def len matched later)
  then show ?thesis by (simp only: whole)
qed

text \<open>
  Claim C9. A character is in the bracket expression \<^verbatim>\<open>[$-_@.&+]\<close> exactly when its code
  point is between 0x24 and 0x5F, and the characters that the pattern repeats after
  \<^verbatim>\<open>://\<close> are those, the exclamation mark and the lower-case letters. So in a body that
  has \<^verbatim>\<open>http://\<close> or \<^verbatim>\<open>https://\<close> after a text without the letter h, then a non-empty
  string of characters between 0x24 and 0x5F, then a character that the pattern does not
  repeat, the first URL extracted is the scheme with the whole of that string, and the
  search goes on after the delimiting character. The slash, the question mark, the equals
  sign, the colon, the semicolon, the digits and the upper-case letters are in the bracket
  expression and are none of the seven characters written in it; the first five of them
  match no other alternative of the pattern.
\<close>

theorem url_punct_is_a_range:
  "(in_class url_punct c \<longleftrightarrow> 0x24 \<le> (of_char c :: nat) \<and> (of_char c :: nat) \<le> 0x5F)
   \<and> (url_ok c \<longleftrightarrow> (of_char c :: nat) = 0x21
          \<or> (0x24 \<le> (of_char c :: nat) \<and> (of_char c :: nat) \<le> 0x5F)
          \<or> (0x61 \<le> (of_char c :: nat) \<and> (of_char c :: nat) \<le> 0x7A))
   \<and> ((scheme = ''http://'' \<or> scheme = ''https://'') \<and> CHR ''h'' \<notin> set pre \<and> u \<noteq> []
        \<and> (\<forall>x \<in> set u. 0x24 \<le> (of_char x :: nat) \<and> (of_char x :: nat) \<le> 0x5F)
        \<and> \<not> url_ok d \<longrightarrow>
        parse_urls (message\<lparr>msg_text := pre @ scheme @ u @ d # post\<rparr>)
          = (scheme @ u) # parse_urls (message\<lparr>msg_text := post\<rparr>))
   \<and> (u \<noteq> [] \<and> (\<forall>x \<in> set u. in_class url_punct x) \<longrightarrow>
        parse_urls (message\<lparr>msg_text := ''http://'' @ u\<rparr>) = [''http://'' @ u])
   \<and> (\<forall>x \<in> set ''/?=:;0123456789ABCDEFGHIJKLMNOPQRSTUVWXYZ''.
          in_class url_punct x \<and> x \<notin> set ''$-_@.&+'')
   \<and> (\<forall>x \<in> set ''/?=:;''.
          \<not> in_class [Range CHR ''a'' CHR ''z'', Range CHR ''A'' CHR ''Z''] x
        \<and> \<not> in_class [Range CHR ''0'' CHR ''9''] x
        \<and> \<not> in_class [Single CHR ''!'', Single CHR ''*'', Single CHR ''('', Single CHR '')'',
                        Single CHR '',''] x)"
proof -
  have a: "in_class url_punct c \<longleftrightarrow> 0x24 \<le> (of_char c :: nat) \<and> (of_char c :: nat) \<le> 0x5F"
    by (rule url_punct_range)
  have b: "url_ok c \<longleftrightarrow> (of_char c :: nat) = 0x21
          \<or> (0x24 \<le> (of_char c :: nat) \<and> (of_char c :: nat) \<le> 0x5F)
          \<or> (0x61 \<le> (of_char c :: nat) \<and> (of_char c :: nat) \<le> 0x7A)"
    by (rule url_ok_codes)
  have c: "parse_urls (message\<lparr>msg_text := pre @ scheme @ u @ d # post\<rparr>)
          = (scheme @ u) # parse_urls (message\<lparr>msg_text := post\<rparr>)"
    if scheme: "scheme = ''http://'' \<or> scheme = ''https://''" and pre: "CHR ''h'' \<notin> set pre"
      and u: "u \<noteq> []" "\<forall>x \<in> set u. 0x24 \<le> (of_char x :: nat) \<and> (of_char x :: nat) \<le> 0x5F"
      and d: "\<not> url_ok d"
  proof -
    from u(2) have ok: "\<forall>x \<in> set u. url_ok x"
      by (simp add: url_ok_codes)
    have "findall_skip URLS_PATTERN 0 (pre @ scheme @ u @ d # post)
            = findall_skip URLS_PATTERN 0 (scheme @ u @ d # post)"
      using pre by (rule findall_skip_prefix)
    also have "\<dots> = (scheme @ u) # findall_skip URLS_PATTERN 0 post"
      using scheme u(1) ok d by (rule findall_delimited)
    finally show ?thesis
      by (simp add: parse_urls_def findall_def)
  qed
  have e: "parse_urls (message\<lparr>msg_text := ''http://'' @ u\<rparr>) = [''http://'' @ u]"
    if "u \<noteq> []" and "\<forall>x \<in> set u. in_class url_punct x"
  proof -
    from that(2) have "\<forall>x \<in> set u. url_ok x"
      by (simp add: url_ok_classes)
    from findall_whole_url [OF that(1) this] show ?thesis
      by (simp add: parse_urls_def)
  qed
  have f: "\<forall>x \<in> set ''/?=:;0123456789ABCDEFGHIJKLMNOPQRSTUVWXYZ''.
          in_class url_punct x \<and> x \<notin> set ''$-_@.&+''"
    by (simp add: url_punct_range)
  have g: "\<forall>x \<in> set ''/?=:;''.
          \<not> in_class [Range CHR ''a'' CHR ''z'', Range CHR ''A'' CHR ''Z''] x
        \<and> \<not> in_class [Range CHR ''0'' CHR ''9''] x
        \<and> \<not> in_class [Single CHR ''!'', Single CHR ''*'', Single CHR ''('', Single CHR '')'',
                        Single CHR '',''] x"
    by (simp add: in_class_def char_le_def)
  from a b c e f g show ?thesis by blast
qed

theorem url_punct_is_a_range_witness:
  "CHR ''h'' \<notin> set ''see '' \<and> ''A.B/C?X=1;Y:2'' \<noteq> []
   \<and> list_all (\<lambda>x. 0x24 \<le> (of_char x :: nat) \<and> (of_char x :: nat) \<le> 0x5F) ''A.B/C?X=1;Y:2''
   \<and> list_all (in_class url_punct) ''A.B/C?X=1;Y:2''
   \<and> \<not> url_ok CHR ''#''
   \<and> CHR ''/'' \<in> set ''/?=:;0123456789ABCDEFGHIJKLMNOPQRSTUVWXYZ''
   \<and> in_class url_punct CHR ''/'' \<and> CHR ''/'' \<notin> set ''$-_@.&+''
   \<and> 0x24 \<le> (of_char CHR ''/'' :: nat) \<and> (of_char CHR ''/'' :: nat) \<le> 0x5F
   \<and> \<not> in_class [Range CHR ''0'' CHR ''9''] CHR ''/''
   \<and> parse_urls \<lparr>time = \<lparr>hour = 10, minute = 0, second = 0, microsecond = 0\<rparr>,
                  username = ''nick1'', msg_text = ''see http://A.B/C?X=1;Y:2#frag'',
                  line_type = REGULAR\<rparr> = [''http://A.B/C?X=1;Y:2'']
   \<and> parse_urls \<lparr>time = \<lparr>hour = 10, minute = 0, second = 0, microsecond = 0\<rparr>,
                  username = ''nick1'', msg_text = ''http://A.B/C?X=1;Y:2'',
                  line_type = REGULAR\<rparr> = [''http://A.B/C?X=1;Y:2'']"
proof -
  let ?m = "\<lparr>time = \<lparr>hour = 10, minute = 0, second = 0, microsecond = 0\<rparr>,
             username = ''nick1'', msg_text = ''x'', line_type = REGULAR\<rparr>"
  let ?u = "''A.B/C?X=1;Y:2''"
  have pre: "CHR ''h'' \<notin> set ''see ''"
    by simp
  have u: "?u \<noteq> [] \<and> list_all (\<lambda>x. 0x24 \<le> (of_char x :: nat) \<and> (of_char x :: nat) \<le> 0x5F) ?u
           \<and> list_all (in_class url_punct) ?u"
    by code_simp
  then have u': "?u \<noteq> []"
    and range: "\<forall>x \<in> set ?u. 0x24 \<le> (of_char x :: nat) \<and> (of_char x :: nat) \<le> 0x5F"
    and cls: "\<forall>x \<in> set ?u. in_class url_punct x"
    by (simp_all add: list_all_iff del: set_simps)
  have d: "\<not> url_ok CHR ''#''"
    by code_simp
  have post: "parse_urls (?m\<lparr>msg_text := ''frag''\<rparr>) = []"
    by code_simp
  have mem: "CHR ''/'' \<in> set ''/?=:;0123456789ABCDEFGHIJKLMNOPQRSTUVWXYZ''"
    and mem5: "CHR ''/'' \<in> set ''/?=:;''"
    by simp_all
  note inst = url_punct_is_a_range [where c = "CHR ''/''" and scheme = "''http://''"
      and pre = "''see ''" and u = ?u and d = "CHR ''#''" and message = ?m and post = "''frag''"]
  from inst mem have slash: "in_class url_punct CHR ''/'' \<and> CHR ''/'' \<notin> set ''$-_@.&+''"
    by blast
  with inst have code: "0x24 \<le> (of_char CHR ''/'' :: nat) \<and> (of_char CHR ''/'' :: nat) \<le> 0x5F"
    by blast
  from inst mem5 have only: "\<not> in_class [Range CHR ''0'' CHR ''9''] CHR ''/''"
    by blast
  from inst pre u' range d
  have "parse_urls (?m\<lparr>msg_text := ''see '' @ ''http://'' @ ?u @ CHR ''#'' # ''frag''\<rparr>)
          = (''http://'' @ ?u) # parse_urls (?m\<lparr>msg_text := ''frag''\<rparr>)"
    by blast
  with post have first: "parse_urls \<lparr>time = \<lparr>hour = 10, minute = 0, second = 0, microsecond = 0\<rparr>,
                  username = ''nick1'', msg_text = ''see http://A.B/C?X=1;Y:2#frag'',
                  line_type = REGULAR\<rparr> = [''http://A.B/C?X=1;Y:2'']"
    by simp
  from inst u' cls
  have "parse_urls (?m\<lparr>msg_text := ''http://'' @ ?u\<rparr>) = [''http://'' @ ?u]"
    by blast
  then have whole: "parse_urls \<lparr>time = \<lparr>hour = 10, minute = 0, second = 0, microsecond = 0\<rparr>,
                  username = ''nick1'', msg_text = ''http://A.B/C?X=1;Y:2'',
                  line_type = REGULAR\<rparr> = [''http://A.B/C?X=1;Y:2'']"
    by simp
  from pre u d mem slash code only first whole show ?thesis
    by blast
qed

end
